theory Spec2Isabelle
  imports Complex_Main
begin

section \<open>Values and errors\<close>

text \<open>
  The module \<open>rem.py\<close> is a thin pipeline over NumPy and SciPy. It defines no exception
  class and contains no \<open>raise\<close>, \<open>try\<close> or \<open>assert\<close>: every failure of a call is
  a Python exception raised inside a library function or by a Python operator, and it
  propagates unchanged to the caller. A call therefore returns \<open>pyerr + 'a\<close>, with
  \<open>Inl\<close> for the exception.
\<close>

datatype pyerr = TypeError | ValueError | ZeroDivisionError | IndexError

text \<open>
  A Python number passed as \<open>factor\<close>: SciPy's decimation tells an \<open>int\<close> from a
  \<open>float\<close>, so the model keeps the two apart.
\<close>

datatype pynum = PyInt int | PyFloat real

fun num_val :: "pynum \<Rightarrow> real" where
  "num_val (PyInt i) = of_int i"
| "num_val (PyFloat x) = x"

text \<open>
  A float64 array element. Finite values are idealised as real numbers (rounding and
  overflow are not modelled, and negative zero is not told from zero); infinities and
  NaN are kept, since array division in NumPy returns them instead of raising.
\<close>

datatype fnum = Fin real | PInf | NInf | NaN

fun is_finite :: "fnum \<Rightarrow> bool" where
  "is_finite (Fin x) = True"
| "is_finite PInf = False"
| "is_finite NInf = False"
| "is_finite NaN = False"

text \<open>IEEE 754 addition, multiplication and division on these values.\<close>

fun fadd :: "fnum \<Rightarrow> fnum \<Rightarrow> fnum" where
  "fadd NaN y = NaN"
| "fadd x NaN = NaN"
| "fadd (Fin x) (Fin y) = Fin (x + y)"
| "fadd (Fin x) y = y"
| "fadd x (Fin y) = x"
| "fadd PInf PInf = PInf"
| "fadd NInf NInf = NInf"
| "fadd PInf NInf = NaN"
| "fadd NInf PInf = NaN"

fun fmul :: "fnum \<Rightarrow> fnum \<Rightarrow> fnum" where
  "fmul NaN y = NaN"
| "fmul x NaN = NaN"
| "fmul (Fin x) (Fin y) = Fin (x * y)"
| "fmul (Fin x) PInf = (if x = 0 then NaN else if 0 < x then PInf else NInf)"
| "fmul (Fin x) NInf = (if x = 0 then NaN else if 0 < x then NInf else PInf)"
| "fmul PInf (Fin y) = (if y = 0 then NaN else if 0 < y then PInf else NInf)"
| "fmul NInf (Fin y) = (if y = 0 then NaN else if 0 < y then NInf else PInf)"
| "fmul PInf PInf = PInf"
| "fmul NInf NInf = PInf"
| "fmul PInf NInf = NInf"
| "fmul NInf PInf = NInf"

fun fdiv :: "fnum \<Rightarrow> fnum \<Rightarrow> fnum" where
  "fdiv NaN y = NaN"
| "fdiv x NaN = NaN"
| "fdiv (Fin x) (Fin y) =
     (if y = 0 then (if x = 0 then NaN else if 0 < x then PInf else NInf)
      else Fin (x / y))"
| "fdiv (Fin x) PInf = Fin 0"
| "fdiv (Fin x) NInf = Fin 0"
| "fdiv PInf (Fin y) = (if y < 0 then NInf else PInf)"
| "fdiv NInf (Fin y) = (if y < 0 then PInf else NInf)"
| "fdiv PInf PInf = NaN"
| "fdiv PInf NInf = NaN"
| "fdiv NInf PInf = NaN"
| "fdiv NInf NInf = NaN"

section \<open>Python operators used by the module\<close>

text \<open>
  \<open>a / b\<close> on Python numbers (lines 53 and 55): true division, which raises
  \<open>ZeroDivisionError\<close> on a zero divisor.
\<close>

definition py_truediv :: "real \<Rightarrow> real \<Rightarrow> pyerr + real" where
  "py_truediv a b = (if b = 0 then Inl ZeroDivisionError else Inr (a / b))"

text \<open>
  \<open>int(fs // factor)\<close> (line 37): floor division, then conversion to \<open>int\<close>.
\<close>

definition py_int_floordiv :: "real \<Rightarrow> real \<Rightarrow> pyerr + int" where
  "py_int_floordiv a b = (if b = 0 then Inl ZeroDivisionError else Inr \<lfloor>a / b\<rfloor>)"

section \<open>NumPy and \<open>scipy.stats\<close> functions with a closed form\<close>

text \<open>
  These are library functions, not code of the repository. Each is modelled from its
  documented behaviour on a one-dimensional float64 array.
\<close>

text \<open>
  Elementwise \<open>a / b\<close> on two arrays (line 47), with NumPy's broadcasting of a
  one-element array; shapes that do not broadcast raise \<open>ValueError\<close>.
\<close>

definition np_divide :: "fnum list \<Rightarrow> fnum list \<Rightarrow> pyerr + fnum list" where
  "np_divide a b =
     (if length a = length b then Inr (map2 fdiv a b)
      else if length a = 1 then Inr (map (fdiv (hd a)) b)
      else if length b = 1 then Inr (map (\<lambda>x. fdiv x (hd b)) a)
      else Inl ValueError)"

text \<open>
  \<open>scipy.stats.zscore(a)\<close> with its defaults (\<open>ddof = 0\<close>): each sample minus the
  mean of the array, divided by the population standard deviation. The division is the
  array division, so a zero standard deviation gives NaN (0/0) and no exception.
\<close>

definition mean :: "real list \<Rightarrow> real" where
  "mean xs = sum_list xs / real (length xs)"

definition variance :: "real list \<Rightarrow> real" where
  "variance xs = sum_list (map (\<lambda>x. (x - mean xs)\<^sup>2) xs) / real (length xs)"

definition zscore :: "real list \<Rightarrow> fnum list" where
  "zscore xs = map (\<lambda>x. fdiv (Fin (x - mean xs)) (Fin (sqrt (variance xs)))) xs"

text \<open>
  \<open>np.linspace(start, stop, num)\<close> with its default \<open>endpoint=True\<close>: \<open>num\<close> evenly
  spaced samples over the closed interval, so the step is \<open>(stop - start) / (num - 1)\<close>.
\<close>

definition np_linspace :: "real \<Rightarrow> real \<Rightarrow> nat \<Rightarrow> real list" where
  "np_linspace start stop num =
     (if num = 0 then []
      else if num = 1 then [start]
      else map (\<lambda>i. start + real i * ((stop - start) / real (num - 1))) [0..<num])"

text \<open>
  \<open>np.gradient(f, x)\<close> with a coordinate array and \<open>edge_order = 1\<close>. The lengths must
  match (\<open>ValueError\<close>); the first difference \<open>diffx[0]\<close> of the coordinates is read,
  which fails on fewer than two samples. With evenly spaced coordinates the interior
  uses the centred difference over \<open>2 * dx\<close>, otherwise the second-order formula for
  uneven spacing; the two ends use the one-sided difference.
\<close>

definition np_diff :: "real list \<Rightarrow> real list" where
  "np_diff x = map (\<lambda>i. x ! Suc i - x ! i) [0..<length x - 1]"

definition grad_interior :: "real list \<Rightarrow> real list \<Rightarrow> bool \<Rightarrow> nat \<Rightarrow> fnum" where
  "grad_interior f dx uniform i =
     (if uniform then fdiv (Fin (f ! Suc i - f ! (i - 1))) (Fin (2 * hd dx))
      else
        (let dx1 = dx ! (i - 1); dx2 = dx ! i;
             a = fdiv (Fin (- dx2)) (Fin (dx1 * (dx1 + dx2)));
             b = fdiv (Fin (dx2 - dx1)) (Fin (dx1 * dx2));
             c = fdiv (Fin dx1) (Fin (dx2 * (dx1 + dx2)))
         in fadd (fadd (fmul a (Fin (f ! (i - 1)))) (fmul b (Fin (f ! i))))
                 (fmul c (Fin (f ! Suc i)))))"

definition np_gradient :: "real list \<Rightarrow> real list \<Rightarrow> pyerr + fnum list" where
  "np_gradient f x =
     (if length x \<noteq> length f then Inl ValueError
      else if length f < 2 then Inl IndexError
      else
        (let n = length f; dx = np_diff x; uniform = list_all (\<lambda>d. d = hd dx) dx
         in Inr (map (\<lambda>i.
              if i = 0 then fdiv (Fin (f ! 1 - f ! 0)) (Fin (dx ! 0))
              else if i = n - 1 then fdiv (Fin (f ! (n - 1) - f ! (n - 2))) (Fin (dx ! (n - 2)))
              else grad_interior f dx uniform i) [0..<n])))"

section \<open>The signal-processing functions of SciPy, as parameters\<close>

text \<open>
  \<open>scipy.signal.butter\<close>, \<open>sosfiltfilt\<close>, \<open>decimate\<close> and \<open>hilbert\<close> are library code
  outside the repository. The module only composes them, so they are parameters of the
  model: a record of the four functions, over any representation \<open>'sos\<close> of a filter in
  second-order sections. What a theorem needs of them is stated as a hypothesis.
\<close>

datatype btype = Lowpass | Bandpass

datatype ftype = Iir | Fir

record 'sos dsp =
  butter :: "int \<Rightarrow> real list \<Rightarrow> btype \<Rightarrow> real \<Rightarrow> pyerr + 'sos"
  sosfiltfilt :: "'sos \<Rightarrow> real list \<Rightarrow> pyerr + real list"
  decimate :: "real list \<Rightarrow> pynum \<Rightarrow> ftype \<Rightarrow> pyerr + real list"
  hilbert :: "real list \<Rightarrow> pyerr + complex list"

section \<open>The module \<open>rem.py\<close>\<close>

text \<open>
  \<open>make_sos_filter\<close> (lines 11-14). The \<open>lru_cache\<close> decorator memoises a function of
  hashable numbers and a string; the designed filter depends on the arguments only, so
  the cache does not change what is returned.
\<close>

definition make_sos_filter ::
  "'sos dsp \<Rightarrow> int \<Rightarrow> real \<Rightarrow> real \<Rightarrow> btype \<Rightarrow> real \<Rightarrow> pyerr + 'sos" where
  "make_sos_filter L order low high bt fs = butter L order [low, high] bt fs"

text \<open>\<open>bandpass\<close> (lines 17-20).\<close>

definition bandpass ::
  "'sos dsp \<Rightarrow> real list \<Rightarrow> real \<Rightarrow> real \<Rightarrow> real \<Rightarrow> int \<Rightarrow> pyerr + real list" where
  "bandpass L sig low high fs order =
     (case make_sos_filter L order low high Bandpass fs of
        Inl e \<Rightarrow> Inl e
      | Inr sos \<Rightarrow> sosfiltfilt L sos sig)"

text \<open>\<open>lowpass\<close> (lines 23-26); its parameter \<open>cut\<close> is written \<open>cutoff\<close> here.\<close>

definition lowpass :: "'sos dsp \<Rightarrow> real list \<Rightarrow> real \<Rightarrow> real \<Rightarrow> int \<Rightarrow> pyerr + real list" where
  "lowpass L sig cutoff fs order =
     (case butter L order [cutoff] Lowpass fs of
        Inl e \<Rightarrow> Inl e
      | Inr sos \<Rightarrow> sosfiltfilt L sos sig)"

text \<open>\<open>downsample\<close> (lines 29-32): the factor is forwarded as it is, with \<open>ftype='fir'\<close>.\<close>

definition downsample :: "'sos dsp \<Rightarrow> real list \<Rightarrow> pynum \<Rightarrow> pyerr + real list" where
  "downsample L raw_sig factor = decimate L raw_sig factor Fir"

text \<open>
  \<open>get_band_power\<close> (lines 35-41). \<open>np.abs\<close> of a complex sample is its modulus, and
  \<open>** 2\<close> squares it.
\<close>

definition get_band_power ::
  "'sos dsp \<Rightarrow> real list \<Rightarrow> real \<Rightarrow> real \<Rightarrow> real \<Rightarrow> pynum \<Rightarrow> int \<Rightarrow> pyerr + real list" where
  "get_band_power L raw_sig low high fs factor order =
     (case downsample L raw_sig factor of
        Inl e \<Rightarrow> Inl e
      | Inr dwn_sig \<Rightarrow>
     (case py_int_floordiv fs (num_val factor) of
        Inl e \<Rightarrow> Inl e
      | Inr dwn_fs \<Rightarrow>
     (case bandpass L dwn_sig low high (of_int dwn_fs) order of
        Inl e \<Rightarrow> Inl e
      | Inr f_sig \<Rightarrow>
     (case hilbert L f_sig of
        Inl e \<Rightarrow> Inl e
      | Inr h_transf \<Rightarrow> Inr (map (\<lambda>z. (cmod z)\<^sup>2) h_transf)))))"

text \<open>
  \<open>delta_theta\<close> (lines 44-48). Both calls of \<open>get_band_power\<close> leave \<open>factor\<close> and
  \<open>order\<close> at their defaults, 16 and 4. The parameters \<open>lfp\<close> and \<open>acc\<close> of the
  source are written \<open>lfp_sig\<close> and \<open>acc_sig\<close>.
\<close>

definition delta_theta ::
  "'sos dsp \<Rightarrow> real list \<Rightarrow> real \<Rightarrow> real \<Rightarrow> real \<Rightarrow> real \<Rightarrow> real \<Rightarrow> pyerr + fnum list" where
  "delta_theta L lfp_sig low_delta high_delta low_theta high_theta fs =
     (case get_band_power L lfp_sig low_theta high_theta fs (PyInt 16) 4 of
        Inl e \<Rightarrow> Inl e
      | Inr theta_power \<Rightarrow>
     (case get_band_power L lfp_sig low_delta high_delta fs (PyInt 16) 4 of
        Inl e \<Rightarrow> Inl e
      | Inr delta_power \<Rightarrow> np_divide (zscore theta_power) (zscore delta_power)))"

text \<open>
  \<open>speed\<close> (lines 51-58). The call \<open>downsample(acc_sig)\<close> on line 52 passes no factor,
  so \<open>downsample\<close> runs with its own default, 16; the parameter \<open>factor\<close> is read on
  line 53 only.
\<close>

definition speed :: "'sos dsp \<Rightarrow> real list \<Rightarrow> pynum \<Rightarrow> real \<Rightarrow> pyerr + fnum list" where
  "speed L acc_sig factor fs =
     (case downsample L acc_sig (PyInt 16) of
        Inl e \<Rightarrow> Inl e
      | Inr motion \<Rightarrow>
     (case py_truediv fs (num_val factor) of
        Inl e \<Rightarrow> Inl e
      | Inr dwn_fs \<Rightarrow>
     (let n_pts = length motion in
     (case py_truediv (real n_pts) dwn_fs of
        Inl e \<Rightarrow> Inl e
      | Inr end_time \<Rightarrow>
     (let t = np_linspace 0 end_time n_pts in
      np_gradient motion t)))))"

text \<open>
  \<open>is_sleeping\<close> (lines 61-64). \<open>speed\<close> is called with \<open>fs\<close> only, so its \<open>factor\<close>
  is the default 16.
\<close>

definition is_sleeping ::
  "'sos dsp \<Rightarrow> real list \<Rightarrow> real list \<Rightarrow> real \<Rightarrow> real \<Rightarrow> real \<Rightarrow> real \<Rightarrow> real
     \<Rightarrow> pyerr + (fnum list \<times> fnum list)" where
  "is_sleeping L lfp_sig acc_sig low_delta high_delta low_theta high_theta fs =
     (case delta_theta L lfp_sig low_delta high_delta low_theta high_theta fs of
        Inl e \<Rightarrow> Inl e
      | Inr ratio \<Rightarrow>
     (case speed L acc_sig (PyInt 16) fs of
        Inl e \<Rightarrow> Inl e
      | Inr motion \<Rightarrow> Inr (ratio, motion)))"

section \<open>The module on a store of arrays\<close>

text \<open>
  Python passes an array by reference, so a callee could write into the array of its
  caller. To state what a call leaves alone, the module is modelled a second time, over
  a store: the list of the arrays allocated so far, an array being known by its index.
  A function takes the addresses of its arguments and the store, and returns an address
  (or an exception) and the store after the call.

  Every statement of the pipeline functions binds the result of a library call to a
  local name or returns it; none assigns to an element or a slice of a parameter, and
  none uses an augmented assignment on one (\<open>generate_data\<close> does, on arrays it has
  created itself). The library calls are parameters once more: \<open>call L c args\<close> runs the
  library function \<open>c\<close> on the arrays at the addresses \<open>args\<close> and may change the store
  in any way. The filter design takes numbers only and returns the filter as a value.
\<close>

datatype ndarray = RealArr "real list" | ComplexArr "complex list" | FloatArr "fnum list"

fun arr_len :: "ndarray \<Rightarrow> nat" where
  "arr_len (RealArr xs) = length xs"
| "arr_len (ComplexArr zs) = length zs"
| "arr_len (FloatArr fs) = length fs"

type_synonym heap = "ndarray list"

datatype 'sos libcall =
    Decimate pynum ftype
  | SosFiltFilt 'sos
  | Hilbert
  | Abs
  | Square
  | ZScore
  | Divide
  | Linspace real real nat
  | Gradient

record 'sos heap_dsp =
  design :: "int \<Rightarrow> real list \<Rightarrow> btype \<Rightarrow> real \<Rightarrow> pyerr + 'sos"
  call :: "'sos libcall \<Rightarrow> nat list \<Rightarrow> heap \<Rightarrow> (pyerr + nat) \<times> heap"

text \<open>Sequencing: the first exception ends the call, the store is handed on.\<close>

definition bind_h ::
  "(heap \<Rightarrow> (pyerr + 'a) \<times> heap) \<Rightarrow> ('a \<Rightarrow> heap \<Rightarrow> (pyerr + 'b) \<times> heap)
     \<Rightarrow> heap \<Rightarrow> (pyerr + 'b) \<times> heap" where
  "bind_h m f h = (case m h of (Inl e, h') \<Rightarrow> (Inl e, h') | (Inr v, h') \<Rightarrow> f v h')"

definition pure_h :: "pyerr + 'a \<Rightarrow> heap \<Rightarrow> (pyerr + 'a) \<times> heap" where
  "pure_h r h = (r, h)"

text \<open>
  The functions of the module, statement by statement as in the first model. In
  \<open>get_band_power\<close>, \<open>np.abs(h_transf) ** 2\<close> is two array operations; in \<open>speed\<close>,
  \<open>len(motion)\<close> reads the store, at the address the decimation has just returned.
\<close>

definition make_sos_filter_h ::
  "'sos heap_dsp \<Rightarrow> int \<Rightarrow> real \<Rightarrow> real \<Rightarrow> btype \<Rightarrow> real \<Rightarrow> pyerr + 'sos" where
  "make_sos_filter_h L order low high bt fs = design L order [low, high] bt fs"

definition bandpass_h ::
  "'sos heap_dsp \<Rightarrow> nat \<Rightarrow> real \<Rightarrow> real \<Rightarrow> real \<Rightarrow> int \<Rightarrow> heap \<Rightarrow> (pyerr + nat) \<times> heap" where
  "bandpass_h L sig low high fs order =
     bind_h (pure_h (make_sos_filter_h L order low high Bandpass fs)) (\<lambda>sos.
     call L (SosFiltFilt sos) [sig])"

definition lowpass_h ::
  "'sos heap_dsp \<Rightarrow> nat \<Rightarrow> real \<Rightarrow> real \<Rightarrow> int \<Rightarrow> heap \<Rightarrow> (pyerr + nat) \<times> heap" where
  "lowpass_h L sig cutoff fs order =
     bind_h (pure_h (design L order [cutoff] Lowpass fs)) (\<lambda>sos.
     call L (SosFiltFilt sos) [sig])"

definition downsample_h ::
  "'sos heap_dsp \<Rightarrow> nat \<Rightarrow> pynum \<Rightarrow> heap \<Rightarrow> (pyerr + nat) \<times> heap" where
  "downsample_h L raw_sig factor = call L (Decimate factor Fir) [raw_sig]"

definition get_band_power_h ::
  "'sos heap_dsp \<Rightarrow> nat \<Rightarrow> real \<Rightarrow> real \<Rightarrow> real \<Rightarrow> pynum \<Rightarrow> int
     \<Rightarrow> heap \<Rightarrow> (pyerr + nat) \<times> heap" where
  "get_band_power_h L raw_sig low high fs factor order =
     bind_h (downsample_h L raw_sig factor) (\<lambda>dwn_sig.
     bind_h (pure_h (py_int_floordiv fs (num_val factor))) (\<lambda>dwn_fs.
     bind_h (bandpass_h L dwn_sig low high (of_int dwn_fs) order) (\<lambda>f_sig.
     bind_h (call L Hilbert [f_sig]) (\<lambda>h_transf.
     bind_h (call L Abs [h_transf]) (\<lambda>magnitude.
     call L Square [magnitude])))))"

definition delta_theta_h ::
  "'sos heap_dsp \<Rightarrow> nat \<Rightarrow> real \<Rightarrow> real \<Rightarrow> real \<Rightarrow> real \<Rightarrow> real
     \<Rightarrow> heap \<Rightarrow> (pyerr + nat) \<times> heap" where
  "delta_theta_h L lfp_sig low_delta high_delta low_theta high_theta fs =
     bind_h (get_band_power_h L lfp_sig low_theta high_theta fs (PyInt 16) 4) (\<lambda>theta_power.
     bind_h (get_band_power_h L lfp_sig low_delta high_delta fs (PyInt 16) 4) (\<lambda>delta_power.
     bind_h (call L ZScore [theta_power]) (\<lambda>z_theta.
     bind_h (call L ZScore [delta_power]) (\<lambda>z_delta.
     call L Divide [z_theta, z_delta]))))"

definition speed_h ::
  "'sos heap_dsp \<Rightarrow> nat \<Rightarrow> pynum \<Rightarrow> real \<Rightarrow> heap \<Rightarrow> (pyerr + nat) \<times> heap" where
  "speed_h L acc_sig factor fs =
     bind_h (downsample_h L acc_sig (PyInt 16)) (\<lambda>motion.
     bind_h (pure_h (py_truediv fs (num_val factor))) (\<lambda>dwn_fs.
     (\<lambda>h. let n_pts = arr_len (h ! motion) in
        bind_h (pure_h (py_truediv (real n_pts) dwn_fs)) (\<lambda>end_time.
        bind_h (call L (Linspace 0 end_time n_pts) []) (\<lambda>t.
        call L Gradient [motion, t])) h)))"

definition is_sleeping_h ::
  "'sos heap_dsp \<Rightarrow> nat \<Rightarrow> nat \<Rightarrow> real \<Rightarrow> real \<Rightarrow> real \<Rightarrow> real \<Rightarrow> real
     \<Rightarrow> heap \<Rightarrow> (pyerr + nat \<times> nat) \<times> heap" where
  "is_sleeping_h L lfp_sig acc_sig low_delta high_delta low_theta high_theta fs =
     bind_h (delta_theta_h L lfp_sig low_delta high_delta low_theta high_theta fs) (\<lambda>ratio.
     bind_h (speed_h L acc_sig (PyInt 16) fs) (\<lambda>motion.
     pure_h (Inr (ratio, motion))))"

text \<open>
  \<open>unchanged h h'\<close>: every array of the store \<open>h\<close> is in \<open>h'\<close> at the same address with
  the same elements. \<open>keeps\<close> and \<open>allocates\<close> say it of a call from any store;
  \<open>allocates\<close> adds that a returned address is one the call has allocated.
\<close>

definition unchanged :: "heap \<Rightarrow> heap \<Rightarrow> bool" where
  "unchanged h h' \<longleftrightarrow> take (length h) h' = h"

definition keeps :: "(heap \<Rightarrow> (pyerr + 'a) \<times> heap) \<Rightarrow> bool" where
  "keeps m \<longleftrightarrow> (\<forall>h. unchanged h (snd (m h)))"

definition allocates :: "(heap \<Rightarrow> (pyerr + nat) \<times> heap) \<Rightarrow> bool" where
  "allocates m \<longleftrightarrow>
     (\<forall>h. unchanged h (snd (m h)) \<and>
        (\<forall>a. fst (m h) = Inr a \<longrightarrow> length h \<le> a \<and> a < length (snd (m h))))"

text \<open>
  \<open>computes m h r\<close>: from the store \<open>h\<close>, the call \<open>m\<close> raises the exception \<open>r\<close>, or
  returns the address of an array equal to \<open>r\<close>.
\<close>

definition computes :: "(heap \<Rightarrow> (pyerr + nat) \<times> heap) \<Rightarrow> heap \<Rightarrow> pyerr + ndarray \<Rightarrow> bool" where
  "computes m h r \<longleftrightarrow>
     (case r of
        Inl e \<Rightarrow> fst (m h) = Inl e
      | Inr v \<Rightarrow> (\<exists>b. fst (m h) = Inr b \<and> b < length (snd (m h)) \<and> snd (m h) ! b = v))"

section \<open>What the theorems assume of the SciPy functions\<close>

text \<open>
  Each predicate states one documented property of a library function, for the use of
  the theorems that need it.

  \<open>sosfiltfilt\<close> returns an array of the shape of its input, and so does \<open>hilbert\<close>
  (with its default \<open>N\<close>).
\<close>

definition filters_keep_length :: "'sos dsp \<Rightarrow> bool" where
  "filters_keep_length L \<longleftrightarrow>
     (\<forall>sos x y. sosfiltfilt L sos x = Inr y \<longrightarrow> length y = length x) \<and>
     (\<forall>x h. hilbert L x = Inr h \<longrightarrow> length h = length x)"

text \<open>\<open>hilbert\<close> returns an analytic signal for every non-empty real signal.\<close>

definition hilbert_returns :: "'sos dsp \<Rightarrow> bool" where
  "hilbert_returns L \<longleftrightarrow> (\<forall>x. x \<noteq> [] \<longrightarrow> (\<exists>h. hilbert L x = Inr h))"

text \<open>
  \<open>decimate\<close> by an integer \<open>q\<close> of at least 2 keeps one sample in \<open>q\<close>, starting with
  the first: the output has \<open>ceil(len(x) / q)\<close> samples.
\<close>

definition decimate_length :: "'sos dsp \<Rightarrow> bool" where
  "decimate_length L \<longleftrightarrow>
     (\<forall>x k ft y. 2 \<le> k \<longrightarrow> decimate L x (PyInt k) ft = Inr y \<longrightarrow>
        length y = (length x + nat k - 1) div nat k)"

text \<open>
  Modelled from the spec: the check of the decimation factor. \<open>downsample\<close> forwards
  \<open>factor\<close> to \<open>scipy.signal.decimate\<close>, which is not part of the repository and makes
  the check; the spec says of it "\<open>factor\<close> must be a positive integer \<open>\<ge> 2\<close>; fails
  otherwise" (SciPy raises \<open>TypeError\<close> for a float, \<open>ZeroDivisionError\<close> for 0 and
  \<open>ValueError\<close> for other integers below 2).
\<close>

fun valid_factor :: "pynum \<Rightarrow> bool" where
  "valid_factor (PyInt k) = (2 \<le> k)"
| "valid_factor (PyFloat r) = False"

definition decimate_checks_factor :: "'sos dsp \<Rightarrow> bool" where
  "decimate_checks_factor L \<longleftrightarrow>
     (\<forall>x q ft. \<not> valid_factor q \<longrightarrow> (\<exists>e. decimate L x q ft = Inl e))"

text \<open>
  Modelled from the spec: the check of the signal length against the filter order.
  \<open>bandpass\<close> and \<open>lowpass\<close> hand the signal to \<open>scipy.signal.sosfiltfilt\<close>, which is
  not part of the repository and makes the check; the spec says it "fails if the signal
  is shorter than a minimum length dictated by the filter order" and otherwise returns
  a signal "of the same length". The minimum length \<open>min_len\<close> of a filter is a
  parameter (SciPy needs more samples than its padding length and raises
  \<open>ValueError\<close>).
\<close>

definition sosfiltfilt_checks_length :: "'sos dsp \<Rightarrow> ('sos \<Rightarrow> nat) \<Rightarrow> bool" where
  "sosfiltfilt_checks_length L min_len \<longleftrightarrow>
     (\<forall>sos x.
        (length x < min_len sos \<longrightarrow> (\<exists>e. sosfiltfilt L sos x = Inl e)) \<and>
        (min_len sos \<le> length x \<longrightarrow> (\<exists>y. sosfiltfilt L sos x = Inr y \<and> length y = length x)))"

text \<open>
  No function of NumPy or SciPy that the module calls writes into an argument; each
  returns a new array. \<open>frame_safe\<close> says so of the parameter \<open>call\<close>.
\<close>

definition frame_safe :: "'sos heap_dsp \<Rightarrow> bool" where
  "frame_safe L \<longleftrightarrow>
     (\<forall>c args h. unchanged h (snd (call L c args h)) \<and>
        (\<forall>a. fst (call L c args h) = Inr a \<longrightarrow>
           length h \<le> a \<and> a < length (snd (call L c args h))))"

section \<open>A small implementation of the interface\<close>

text \<open>
  To run the module on concrete signals the four parameters are instantiated with an
  implementation that checks its arguments as SciPy does and returns arrays of the
  same lengths, but does no filtering: decimation keeps every \<open>q\<close>-th sample, the
  zero-phase filter returns a long enough signal unchanged, and the analytic signal has
  imaginary part zero. A filter is represented by its number of second-order sections.
  On an all-zero signal its outputs are those of any linear filter.
\<close>

fun stride :: "nat \<Rightarrow> 'a list \<Rightarrow> 'a list" where
  "stride k [] = []"
| "stride k (x # xs) = x # stride k (drop (k - 1) xs)"

definition ref_butter :: "int \<Rightarrow> real list \<Rightarrow> btype \<Rightarrow> real \<Rightarrow> pyerr + nat" where
  "ref_butter order cutoffs bt fs =
     (if order < 1 then Inl ValueError
      else if \<not> list_all (\<lambda>w. 0 < w \<and> w < fs / 2) cutoffs then Inl ValueError
      else (case bt of
              Lowpass \<Rightarrow>
                (if length cutoffs = 1 then Inr (nat ((order + 1) div 2)) else Inl ValueError)
            | Bandpass \<Rightarrow>
                (if length cutoffs = 2 \<and> cutoffs ! 0 < cutoffs ! 1 then Inr (nat order)
                 else Inl ValueError)))"

definition ref_padlen :: "nat \<Rightarrow> nat" where
  "ref_padlen n_sections = 3 * (2 * n_sections + 1)"

definition ref_sosfiltfilt :: "nat \<Rightarrow> real list \<Rightarrow> pyerr + real list" where
  "ref_sosfiltfilt sos x = (if length x \<le> ref_padlen sos then Inl ValueError else Inr x)"

definition ref_decimate :: "real list \<Rightarrow> pynum \<Rightarrow> ftype \<Rightarrow> pyerr + real list" where
  "ref_decimate x q ft =
     (case q of
        PyFloat r \<Rightarrow> Inl TypeError
      | PyInt k \<Rightarrow>
          (if k = 0 then Inl ZeroDivisionError
           else if k < 2 then Inl ValueError
           else Inr (stride (nat k) x)))"

definition ref_hilbert :: "real list \<Rightarrow> pyerr + complex list" where
  "ref_hilbert x = (if x = [] then Inl ValueError else Inr (map (\<lambda>v. Complex v 0) x))"

definition ref_dsp :: "nat dsp" where
  "ref_dsp = \<lparr>butter = ref_butter, sosfiltfilt = ref_sosfiltfilt,
              decimate = ref_decimate, hilbert = ref_hilbert\<rparr>"

text \<open>
  Two inputs for it. \<open>test_lfp\<close> has 480 samples, in blocks of 16 of the values 1, 5
  and 7; decimated by 16 it gives these values ten times over, and \<open>test_power\<close> is
  the square of each, the band power the small implementation returns for it.
\<close>

definition test_power :: "real list" where
  "test_power = concat (replicate 10 [1, 25, 49])"

definition test_lfp :: "real list" where
  "test_lfp = concat (map (replicate 16) (concat (replicate 10 [1, 5, 7])))"

text \<open>
  \<open>step_acc\<close> has 32 samples, 16 of value 0 and then 16 of value 16; decimated by 16 it
  gives the two samples 0 and 16.
\<close>

definition step_acc :: "real list" where
  "step_acc = concat (map (replicate 16) [0, 16])"

text \<open>
  On the store, a library function that is given by its values (the four parameters of
  the first model, and the NumPy functions above) reads its arguments and puts its
  result at the next free address. \<open>lift_dsp L\<close> is the library \<open>L\<close> run this way. An
  argument of the wrong kind raises \<open>TypeError\<close>; an address outside the store does
  not arise and is answered by \<open>IndexError\<close>.
\<close>

definition alloc :: "pyerr + ndarray \<Rightarrow> heap \<Rightarrow> (pyerr + nat) \<times> heap" where
  "alloc r h = (case r of Inl e \<Rightarrow> (Inl e, h) | Inr v \<Rightarrow> (Inr (length h), h @ [v]))"

definition run_call :: "'sos dsp \<Rightarrow> 'sos libcall \<Rightarrow> ndarray list \<Rightarrow> pyerr + ndarray" where
  "run_call L c args =
     (case (c, args) of
        (Decimate q ft, [RealArr x]) \<Rightarrow> map_sum id RealArr (decimate L x q ft)
      | (SosFiltFilt sos, [RealArr x]) \<Rightarrow> map_sum id RealArr (sosfiltfilt L sos x)
      | (Hilbert, [RealArr x]) \<Rightarrow> map_sum id ComplexArr (hilbert L x)
      | (Abs, [ComplexArr z]) \<Rightarrow> Inr (RealArr (map cmod z))
      | (Square, [RealArr x]) \<Rightarrow> Inr (RealArr (map (\<lambda>v. v\<^sup>2) x))
      | (ZScore, [RealArr x]) \<Rightarrow> Inr (FloatArr (zscore x))
      | (Divide, [FloatArr a, FloatArr b]) \<Rightarrow> map_sum id FloatArr (np_divide a b)
      | (Linspace a b n, []) \<Rightarrow> Inr (RealArr (np_linspace a b n))
      | (Gradient, [RealArr f, RealArr t]) \<Rightarrow> map_sum id FloatArr (np_gradient f t)
      | _ \<Rightarrow> Inl TypeError)"

definition lift_dsp :: "'sos dsp \<Rightarrow> 'sos heap_dsp" where
  "lift_dsp L =
     \<lparr>design = butter L,
      call = (\<lambda>c args h.
        if list_all (\<lambda>a. a < length h) args then alloc (run_call L c (map (nth h) args)) h
        else (Inl IndexError, h))\<rparr>"

section \<open>Lemmas on the small implementation\<close>

lemma stride_div_aux:
  fixes n j :: nat
  shows "(n - j + j) div Suc j = n div Suc j"
proof (cases "n < j")
  case True
  then have "n - j + j = j" by simp
  then show ?thesis using True by simp
next
  case False
  then have "n - j + j = n" by simp
  then show ?thesis by simp
qed

lemma length_stride: "0 < k \<Longrightarrow> length (stride k xs) = (length xs + k - 1) div k"
proof (induction k xs rule: stride.induct)
  case (1 k)
  then show ?case by simp
next
  case (2 k x xs)
  from 2(2) obtain j where j: "k = Suc j" by (cases k) auto
  have "length (stride k (x # xs)) = Suc ((length xs - j + j) div Suc j)"
    using 2 by (simp add: j)
  also have "\<dots> = Suc (length xs div Suc j)"
    by (simp only: stride_div_aux)
  also have "\<dots> = (length xs + Suc j) div Suc j"
    by (simp only: div_add_self2)
  also have "\<dots> = (length (x # xs) + k - 1) div k"
    by (simp add: j)
  finally show ?case .
qed

lemma set_stride: "set (stride k xs) \<subseteq> set xs"
proof (induction k xs rule: stride.induct)
  case (1 k)
  then show ?case by simp
next
  case (2 k x xs)
  have "set (drop (k - 1) xs) \<subseteq> set xs" by (rule set_drop_subset)
  with 2 show ?case by auto
qed

lemma stride_replicate: "0 < k \<Longrightarrow> stride k (replicate n c) = replicate ((n + k - 1) div k) c"
proof -
  assume k: "0 < k"
  have "set (stride k (replicate n c)) \<subseteq> {c}"
    using set_stride [of k "replicate n c"] by auto
  then have "stride k (replicate n c) = replicate (length (stride k (replicate n c))) c"
    by (metis replicate_eqI singletonD subsetD)
  then show ?thesis using length_stride [OF k, of "replicate n c"] by simp
qed

lemma stride_blocks: "0 < k \<Longrightarrow> stride k (concat (map (replicate k) ys)) = ys"
proof (induction ys)
  case Nil
  then show ?case by simp
next
  case (Cons y ys)
  then obtain j where j: "k = Suc j" by (cases k) auto
  show ?case using Cons by (simp add: j)
qed

lemma ref_filters_keep_length: "filters_keep_length ref_dsp"
  by (auto simp: filters_keep_length_def ref_dsp_def ref_sosfiltfilt_def ref_hilbert_def
      split: if_splits)

lemma ref_decimate_length: "decimate_length ref_dsp"
  by (auto simp: decimate_length_def ref_dsp_def ref_decimate_def length_stride
      split: if_splits)

lemma ref_bandpass:
  assumes "1 \<le> order" "0 < low" "low < high" "high < fs / 2"
    and "ref_padlen (nat order) < length x"
  shows "bandpass ref_dsp x low high fs order = Inr x"
  using assms
  by (simp add: bandpass_def make_sos_filter_def ref_dsp_def ref_butter_def ref_sosfiltfilt_def)

lemma ref_get_band_power:
  assumes "2 \<le> k" "1 \<le> order" "0 < low" "low < high"
    and "high < of_int \<lfloor>fs / of_int k\<rfloor> / 2"
    and "ref_padlen (nat order) < length (stride (nat k) raw)"
  shows "get_band_power ref_dsp raw low high fs (PyInt k) order
           = Inr (map (\<lambda>v. v\<^sup>2) (stride (nat k) raw))"
proof -
  have d: "downsample ref_dsp raw (PyInt k) = Inr (stride (nat k) raw)"
    using assms(1) by (simp add: downsample_def ref_dsp_def ref_decimate_def)
  have r: "py_int_floordiv fs (of_int k) = Inr \<lfloor>fs / of_int k\<rfloor>"
    using assms(1) by (simp add: py_int_floordiv_def)
  have b: "bandpass ref_dsp (stride (nat k) raw) low high (of_int \<lfloor>fs / of_int k\<rfloor>) order
             = Inr (stride (nat k) raw)"
    using assms by (intro ref_bandpass) auto
  have ne: "stride (nat k) raw \<noteq> []" using assms(6) by auto
  have h: "hilbert ref_dsp (stride (nat k) raw)
             = Inr (map (\<lambda>v. Complex v 0) (stride (nat k) raw))"
    using ne by (simp add: ref_dsp_def ref_hilbert_def)
  show ?thesis
    by (simp add: get_band_power_def d r b h o_def cmod_def)
qed

lemma floor_20000_16: "\<lfloor>(20000::real) / 16\<rfloor> = 1250"
  by simp

lemma ref_get_band_power_default:
  assumes "0 < low" "low < high" "high < 625"
    and "27 < length (stride 16 raw)"
  shows "get_band_power ref_dsp raw low high 20000 (PyInt 16) 4
           = Inr (map (\<lambda>v. v\<^sup>2) (stride 16 raw))"
  using ref_get_band_power [of 16 4 low high 20000 raw] assms
  by (simp add: ref_padlen_def)

section \<open>Decimation: output length and rate (C4)\<close>

text \<open>
  C4, as stated, fails on the rate. \<open>get_band_power\<close> passes \<open>int(fs // factor)\<close> to the
  filter design, the floor of the quotient. With \<open>fs = 20000\<close> and \<open>factor = 3\<close> the
  rate used is 6666, not 20000/3: a band edge of 3333.2 Hz lies under the Nyquist
  frequency of the decimated signal (3333.33 Hz) and is still rejected by the filter
  design, which is given the Nyquist frequency 3333 Hz.
\<close>

theorem decimated_rate_counterexample:
  "get_band_power ref_dsp (replicate 300 0) 1 (33332 / 10) 20000 (PyInt 3) 4 = Inl ValueError
   \<and> (33332 / 10 :: real) < (20000 / 3) / 2
   \<and> py_int_floordiv 20000 (num_val (PyInt 3)) = Inr 6666
   \<and> real_of_int 6666 \<noteq> 20000 / 3"
  by (simp add: get_band_power_def downsample_def bandpass_def make_sos_filter_def
      ref_dsp_def ref_decimate_def ref_butter_def py_int_floordiv_def)

text \<open>
  C4, amended. For an integer factor \<open>k\<close> of at least 2, a decimated signal has
  \<open>floor(len / k)\<close> samples or one more (SciPy returns \<open>ceil(len / k)\<close>), and the rate
  that \<open>get_band_power\<close> hands to the band-pass filter is the integer
  \<open>floor(fs / k)\<close>: it is at most \<open>fs / k\<close>, less than one below it, and equal to it
  exactly when \<open>fs / k\<close> is an integer (as with the defaults 20000 and 16).
\<close>

theorem decimation_length_and_rate:
  assumes "decimate_length L" and "2 \<le> k"
    and "downsample L raw_sig (PyInt k) = Inr dwn_sig"
  shows "length raw_sig div nat k \<le> length dwn_sig
         \<and> length dwn_sig \<le> length raw_sig div nat k + 1
         \<and> get_band_power L raw_sig low high fs (PyInt k) order =
             (case bandpass L dwn_sig low high (of_int \<lfloor>fs / of_int k\<rfloor>) order of
                Inl e \<Rightarrow> Inl e
              | Inr f_sig \<Rightarrow>
                  (case hilbert L f_sig of
                     Inl e \<Rightarrow> Inl e
                   | Inr h_transf \<Rightarrow> Inr (map (\<lambda>z. (cmod z)\<^sup>2) h_transf)))
         \<and> of_int \<lfloor>fs / of_int k\<rfloor> \<le> fs / of_int k
         \<and> fs / of_int k < of_int \<lfloor>fs / of_int k\<rfloor> + 1
         \<and> (of_int \<lfloor>fs / of_int k\<rfloor> = fs / of_int k \<longleftrightarrow> fs / of_int k \<in> \<int>)"
proof -
  from assms(2) obtain j where j: "nat k = Suc j" by (cases "nat k") auto
  have len: "length dwn_sig = (length raw_sig + nat k - 1) div nat k"
    using assms by (auto simp: decimate_length_def downsample_def)
  have lo: "length raw_sig div nat k \<le> length dwn_sig"
    unfolding len by (rule div_le_mono) (simp add: j)
  have "(length raw_sig + nat k - 1) div nat k \<le> (length raw_sig + nat k) div nat k"
    by (rule div_le_mono) simp
  also have "\<dots> = Suc (length raw_sig div nat k)"
    unfolding j by (simp only: div_add_self2)
  finally have hi: "length dwn_sig \<le> length raw_sig div nat k + 1"
    unfolding len by simp
  have r: "py_int_floordiv fs (of_int k) = Inr \<lfloor>fs / of_int k\<rfloor>"
    using assms(2) by (simp add: py_int_floordiv_def)
  have g: "get_band_power L raw_sig low high fs (PyInt k) order =
             (case bandpass L dwn_sig low high (of_int \<lfloor>fs / of_int k\<rfloor>) order of
                Inl e \<Rightarrow> Inl e
              | Inr f_sig \<Rightarrow>
                  (case hilbert L f_sig of
                     Inl e \<Rightarrow> Inl e
                   | Inr h_transf \<Rightarrow> Inr (map (\<lambda>z. (cmod z)\<^sup>2) h_transf)))"
    by (simp add: get_band_power_def assms(3) r)
  have i: "(of_int \<lfloor>fs / of_int k\<rfloor> = fs / of_int k) = (fs / of_int k \<in> \<int>)"
    by (metis Ints_of_int floor_of_int Ints_cases)
  have f1: "of_int \<lfloor>fs / of_int k\<rfloor> \<le> fs / of_int k" by (rule of_int_floor_le)
  have f2: "fs / of_int k < of_int \<lfloor>fs / of_int k\<rfloor> + 1" by linarith
  show ?thesis using lo hi g i f1 f2 by blast
qed


text \<open>
  At the small implementation, with the defaults: 512 samples give 32, and the rate is
  1250 = 20000 / 16.
\<close>

theorem decimation_length_and_rate_witness:
  "decimate_length ref_dsp
   \<and> downsample ref_dsp (replicate 512 3) (PyInt 16) = Inr (replicate 32 3)
   \<and> length (replicate 512 (3::real)) div nat 16 \<le> length (replicate 32 (3::real))
   \<and> length (replicate 32 (3::real)) \<le> length (replicate 512 (3::real)) div nat 16 + 1
   \<and> real_of_int \<lfloor>(20000::real) / of_int 16\<rfloor> = 20000 / of_int 16
   \<and> (20000::real) / of_int 16 \<in> \<int>"
proof -
  have d: "downsample ref_dsp (replicate 512 3) (PyInt 16) = Inr (replicate 32 3)"
    by (simp add: downsample_def ref_dsp_def ref_decimate_def stride_replicate)
  have k: "(2::int) \<le> 16" by simp
  have "real_of_int \<lfloor>(20000::real) / of_int 16\<rfloor> = 20000 / of_int 16" by simp
  then show ?thesis
    using decimation_length_and_rate [OF ref_decimate_length k d, of 4 10 20000 4] d
      ref_decimate_length
    by simp
qed

section \<open>Lemmas on the z-score and the ratio\<close>

lemma length_zscore [simp]: "length (zscore xs) = length xs"
  by (simp add: zscore_def)

lemma fdiv_NaN_right [simp]: "fdiv x NaN = NaN"
  by (cases x) simp_all

lemma fdiv_zero_not_finite: "\<not> is_finite (fdiv x (Fin 0))"
  by (cases x) simp_all

lemma variance_zero_all_mean:
  assumes "variance xs = 0" and "x \<in> set xs"
  shows "x = mean xs"
proof -
  from assms(2) have "xs \<noteq> []" by auto
  then have "real (length xs) \<noteq> 0" by simp
  with assms(1) have "sum_list (map (\<lambda>x. (x - mean xs)\<^sup>2) xs) = 0"
    by (simp add: variance_def)
  then have "\<forall>y \<in> set (map (\<lambda>x. (x - mean xs)\<^sup>2) xs). y = 0"
    by (subst (asm) sum_list_nonneg_eq_0_iff) auto
  with assms(2) have "(x - mean xs)\<^sup>2 = 0" by auto
  then show ?thesis by simp
qed

lemma zscore_zero_variance:
  assumes "variance xs = 0"
  shows "zscore xs = replicate (length xs) NaN"
proof -
  have "\<forall>z \<in> set (zscore xs). z = NaN"
    using variance_zero_all_mean [OF assms] assms by (auto simp: zscore_def)
  then show ?thesis
    by (metis length_zscore replicate_eqI)
qed

lemma zscore_nth:
  assumes "variance xs \<noteq> 0" and "i < length xs"
  shows "zscore xs ! i = Fin ((xs ! i - mean xs) / sqrt (variance xs))"
  using assms by (simp add: zscore_def)

lemma zscore_at_mean:
  assumes "variance xs \<noteq> 0" and "i < length xs" and "xs ! i = mean xs"
  shows "zscore xs ! i = Fin 0"
  using assms by (simp add: zscore_nth)

lemma delta_theta_eq:
  assumes "get_band_power L lfp_sig low_theta high_theta fs (PyInt 16) 4 = Inr theta_power"
    and "get_band_power L lfp_sig low_delta high_delta fs (PyInt 16) 4 = Inr delta_power"
    and "length theta_power = length delta_power"
  shows "delta_theta L lfp_sig low_delta high_delta low_theta high_theta fs
           = Inr (map2 fdiv (zscore theta_power) (zscore delta_power))"
  using assms by (simp add: delta_theta_def np_divide_def)

lemma ratio_nth:
  assumes "length tp = length dp" and "i < length dp"
  shows "map2 fdiv (zscore tp) (zscore dp) ! i = fdiv (zscore tp ! i) (zscore dp ! i)"
  using assms by simp

lemma ratio_zero_variance:
  assumes "length tp = length dp" and "variance tp = 0 \<or> variance dp = 0"
  shows "map2 fdiv (zscore tp) (zscore dp) = replicate (length dp) NaN"
proof (rule replicate_eqI)
  show "length (map2 fdiv (zscore tp) (zscore dp)) = length dp" using assms(1) by simp
next
  fix y assume "y \<in> set (map2 fdiv (zscore tp) (zscore dp))"
  then obtain i where i: "i < length dp" and y: "y = fdiv (zscore tp ! i) (zscore dp ! i)"
    using assms(1) by (auto simp: in_set_conv_nth)
  from assms(2) show "y = NaN"
  proof
    assume "variance tp = 0"
    then have "zscore tp ! i = NaN" using i assms(1) by (simp add: zscore_zero_variance)
    then show ?thesis using y by simp
  next
    assume "variance dp = 0"
    then have "zscore dp ! i = NaN" using i by (simp add: zscore_zero_variance)
    then show ?thesis using y by simp
  qed
qed

lemma ratio_finite_iff:
  assumes "length tp = length dp" and "i < length dp"
    and "variance tp \<noteq> 0" and "variance dp \<noteq> 0"
  shows "is_finite (map2 fdiv (zscore tp) (zscore dp) ! i) \<longleftrightarrow> dp ! i \<noteq> mean dp"
  using assms by (simp add: zscore_nth)

lemma test_power_list:
  "test_power = [1, 25, 49, 1, 25, 49, 1, 25, 49, 1, 25, 49, 1, 25, 49,
                 1, 25, 49, 1, 25, 49, 1, 25, 49, 1, 25, 49, 1, 25, 49]"
  by (simp add: test_power_def eval_nat_numeral)

lemma mean_test_power: "mean test_power = 25"
  by (simp add: mean_def test_power_list)

lemma variance_test_power: "variance test_power = 384"
  by (simp add: variance_def mean_test_power) (simp add: test_power_list)

lemma test_power_1: "test_power ! 1 = 25"
  by (simp add: test_power_list)

lemma length_test_power: "length test_power = 30"
  by (simp add: test_power_list)

lemma band_power_test_lfp:
  assumes "0 < low" "low < high" "high < 625"
  shows "get_band_power ref_dsp test_lfp low high 20000 (PyInt 16) 4 = Inr test_power"
proof -
  have s: "stride 16 test_lfp = concat (replicate 10 [1, 5, 7])"
    unfolding test_lfp_def by (rule stride_blocks) simp
  have "map (\<lambda>v. v\<^sup>2) (concat (replicate 10 [1, 5, 7::real])) = test_power"
    by (simp add: test_power_def map_concat)
  moreover have "27 < length (stride 16 test_lfp)"
    unfolding s by (simp add: length_concat sum_list_replicate)
  ultimately show ?thesis
    using ref_get_band_power_default [OF assms, of test_lfp] s by simp
qed

lemma band_power_zeros:
  assumes "0 < low" "low < high" "high < 625"
  shows "get_band_power ref_dsp (replicate 512 0) low high 20000 (PyInt 16) 4
           = Inr (replicate 32 0)"
  using ref_get_band_power_default [OF assms, of "replicate 512 0"]
  by (simp add: stride_replicate)

lemma variance_zeros: "variance (replicate n 0) = 0"
  by (simp add: variance_def mean_def sum_list_replicate map_replicate_const)

lemma delta_theta_zeros:
  "delta_theta ref_dsp (replicate 512 0) (1 / 10) 3 4 10 20000 = Inr (replicate 32 NaN)"
proof -
  have t: "get_band_power ref_dsp (replicate 512 0) 4 10 20000 (PyInt 16) 4
             = Inr (replicate 32 0)"
    by (rule band_power_zeros) simp_all
  have d: "get_band_power ref_dsp (replicate 512 0) (1 / 10) 3 20000 (PyInt 16) 4
             = Inr (replicate 32 0)"
    by (rule band_power_zeros) simp_all
  have "delta_theta ref_dsp (replicate 512 0) (1 / 10) 3 4 10 20000
          = Inr (map2 fdiv (zscore (replicate 32 0)) (zscore (replicate 32 0)))"
    by (rule delta_theta_eq [OF t d]) simp
  also have "map2 fdiv (zscore (replicate 32 0)) (zscore (replicate 32 0))
               = replicate (length (replicate 32 (0::real))) NaN"
    by (rule ratio_zero_variance) (simp_all add: variance_zeros)
  finally show ?thesis by simp
qed

section \<open>The ratio on a power signal of zero variance (C1)\<close>

text \<open>
  C1, as stated, fails. \<open>delta_theta\<close> has no check of the variance and raises
  nothing itself. On 512 zero samples both band powers are zero throughout (variance 0),
  and the call returns 32 NaN values instead of failing.
\<close>

theorem delta_theta_zero_variance_counterexample:
  "get_band_power ref_dsp (replicate 512 0) 4 10 20000 (PyInt 16) 4 = Inr (replicate 32 0)
   \<and> get_band_power ref_dsp (replicate 512 0) (1 / 10) 3 20000 (PyInt 16) 4
        = Inr (replicate 32 0)
   \<and> variance (replicate 32 0) = 0
   \<and> delta_theta ref_dsp (replicate 512 0) (1 / 10) 3 4 10 20000 = Inr (replicate 32 NaN)"
proof -
  have t: "get_band_power ref_dsp (replicate 512 0) 4 10 20000 (PyInt 16) 4
             = Inr (replicate 32 0)"
    by (rule band_power_zeros) simp_all
  have d: "get_band_power ref_dsp (replicate 512 0) (1 / 10) 3 20000 (PyInt 16) 4
             = Inr (replicate 32 0)"
    by (rule band_power_zeros) simp_all
  show ?thesis using t d delta_theta_zeros by (simp add: variance_zeros)
qed

text \<open>
  C1, amended. Whenever both band-power computations succeed, with results of one
  length, \<open>delta_theta\<close> returns the elementwise quotient of the two z-scored power
  signals. If either power signal has zero variance every element of the result is NaN.
  If both variances are nonzero, an element is finite exactly when the delta power of
  that sample differs from the mean delta power.
\<close>

theorem delta_theta_no_variance_check:
  assumes "get_band_power L lfp_sig low_theta high_theta fs (PyInt 16) 4 = Inr theta_power"
    and "get_band_power L lfp_sig low_delta high_delta fs (PyInt 16) 4 = Inr delta_power"
    and "length theta_power = length delta_power"
  shows "\<exists>ratio. delta_theta L lfp_sig low_delta high_delta low_theta high_theta fs = Inr ratio
           \<and> ratio = map2 fdiv (zscore theta_power) (zscore delta_power)
           \<and> (variance theta_power = 0 \<or> variance delta_power = 0
                 \<longrightarrow> ratio = replicate (length delta_power) NaN)
           \<and> (variance theta_power \<noteq> 0 \<and> variance delta_power \<noteq> 0
                 \<longrightarrow> (\<forall>i < length delta_power.
                        is_finite (ratio ! i) \<longleftrightarrow> delta_power ! i \<noteq> mean delta_power))"
  using delta_theta_eq [OF assms] ratio_zero_variance [OF assms(3)]
    ratio_finite_iff [OF assms(3)]
  by simp

text \<open>
  At the small implementation: on \<open>test_lfp\<close> the first element of the ratio is finite
  and the second is not; on 512 zero samples every element is NaN.
\<close>

theorem delta_theta_no_variance_check_witness:
  "get_band_power ref_dsp test_lfp 4 10 20000 (PyInt 16) 4 = Inr test_power
   \<and> get_band_power ref_dsp test_lfp (1 / 10) 3 20000 (PyInt 16) 4 = Inr test_power
   \<and> variance test_power \<noteq> 0
   \<and> (\<exists>ratio. delta_theta ref_dsp test_lfp (1 / 10) 3 4 10 20000 = Inr ratio
         \<and> is_finite (ratio ! 0) \<and> \<not> is_finite (ratio ! 1))
   \<and> get_band_power ref_dsp (replicate 512 0) 4 10 20000 (PyInt 16) 4 = Inr (replicate 32 0)
   \<and> variance (replicate 32 0) = 0
   \<and> delta_theta ref_dsp (replicate 512 0) (1 / 10) 3 4 10 20000 = Inr (replicate 32 NaN)"
proof -
  have t: "get_band_power ref_dsp test_lfp 4 10 20000 (PyInt 16) 4 = Inr test_power"
    by (rule band_power_test_lfp) simp_all
  have d: "get_band_power ref_dsp test_lfp (1 / 10) 3 20000 (PyInt 16) 4 = Inr test_power"
    by (rule band_power_test_lfp) simp_all
  have v: "variance test_power \<noteq> 0" by (simp add: variance_test_power)
  have m0: "test_power ! 0 \<noteq> mean test_power" and m1: "test_power ! 1 = mean test_power"
    by (simp_all add: mean_test_power) (simp_all add: test_power_list)
  have a: "\<exists>ratio. delta_theta ref_dsp test_lfp (1 / 10) 3 4 10 20000 = Inr ratio
         \<and> is_finite (ratio ! 0) \<and> \<not> is_finite (ratio ! 1)"
    using delta_theta_no_variance_check [OF t d refl] v m0 m1
    by (simp add: length_test_power)
  have tz: "get_band_power ref_dsp (replicate 512 0) 4 10 20000 (PyInt 16) 4
             = Inr (replicate 32 0)"
    by (rule band_power_zeros) simp_all
  have dz: "get_band_power ref_dsp (replicate 512 0) (1 / 10) 3 20000 (PyInt 16) 4
             = Inr (replicate 32 0)"
    by (rule band_power_zeros) simp_all
  have b: "delta_theta ref_dsp (replicate 512 0) (1 / 10) 3 4 10 20000
             = Inr (replicate 32 NaN)"
    using delta_theta_no_variance_check [OF tz dz refl] by (simp add: variance_zeros)
  show ?thesis using t d v a tz b by (simp add: variance_zeros)
qed

section \<open>Division by a zero sample of the z-scored delta power (C10)\<close>

text \<open>
  C10. Whenever both band-power computations succeed, with results of one length,
  \<open>delta_theta\<close> returns a ratio of that length and raises nothing; at every sample
  where the z-scored delta power is zero the ratio is not finite (an infinity when the
  z-scored theta power is not zero there, NaN otherwise).
\<close>

theorem delta_theta_unguarded_division:
  assumes "get_band_power L lfp_sig low_theta high_theta fs (PyInt 16) 4 = Inr theta_power"
    and "get_band_power L lfp_sig low_delta high_delta fs (PyInt 16) 4 = Inr delta_power"
    and "length theta_power = length delta_power"
  shows "\<exists>ratio. delta_theta L lfp_sig low_delta high_delta low_theta high_theta fs = Inr ratio
           \<and> length ratio = length delta_power
           \<and> (\<forall>i < length delta_power.
                 zscore delta_power ! i = Fin 0 \<longrightarrow> \<not> is_finite (ratio ! i))"
proof -
  let ?r = "map2 fdiv (zscore theta_power) (zscore delta_power)"
  have "delta_theta L lfp_sig low_delta high_delta low_theta high_theta fs = Inr ?r"
    by (rule delta_theta_eq [OF assms])
  moreover have "length ?r = length delta_power" using assms(3) by simp
  moreover have "\<forall>i < length delta_power.
                   zscore delta_power ! i = Fin 0 \<longrightarrow> \<not> is_finite (?r ! i)"
    using assms(3) by (simp add: fdiv_zero_not_finite)
  ultimately show ?thesis by blast
qed

text \<open>
  At the small implementation, on \<open>test_lfp\<close>: the delta power has variance 384, its
  z-score is zero at index 1, and the ratio there is not finite.
\<close>

theorem delta_theta_unguarded_division_witness:
  "get_band_power ref_dsp test_lfp 4 10 20000 (PyInt 16) 4 = Inr test_power
   \<and> get_band_power ref_dsp test_lfp (1 / 10) 3 20000 (PyInt 16) 4 = Inr test_power
   \<and> variance test_power = 384
   \<and> zscore test_power ! 1 = Fin 0
   \<and> (\<exists>ratio. delta_theta ref_dsp test_lfp (1 / 10) 3 4 10 20000 = Inr ratio
         \<and> length ratio = 30 \<and> \<not> is_finite (ratio ! 1))"
proof -
  have t: "get_band_power ref_dsp test_lfp 4 10 20000 (PyInt 16) 4 = Inr test_power"
    by (rule band_power_test_lfp) simp_all
  have d: "get_band_power ref_dsp test_lfp (1 / 10) 3 20000 (PyInt 16) 4 = Inr test_power"
    by (rule band_power_test_lfp) simp_all
  have z: "zscore test_power ! 1 = Fin 0"
    using test_power_1
    by (intro zscore_at_mean)
       (simp_all add: variance_test_power length_test_power mean_test_power)
  have "\<exists>ratio. delta_theta ref_dsp test_lfp (1 / 10) 3 4 10 20000 = Inr ratio
         \<and> length ratio = 30 \<and> \<not> is_finite (ratio ! 1)"
    using delta_theta_unguarded_division [OF t d refl] z
    by (auto simp: length_test_power)
  then show ?thesis using t d z variance_test_power by simp
qed

section \<open>Lemmas on \<open>speed\<close>\<close>

lemma length_np_linspace [simp]: "length (np_linspace a b n) = n"
  by (simp add: np_linspace_def)

lemma np_linspace_nth:
  assumes "2 \<le> n" and "i < n"
  shows "np_linspace a b n ! i = a + real i * ((b - a) / real (n - 1))"
  using assms by (simp add: np_linspace_def)

lemma np_linspace_step:
  assumes "2 \<le> n" and "Suc i < n"
  shows "np_linspace 0 (real n / r) n ! Suc i - np_linspace 0 (real n / r) n ! i
           = real n / (real (n - 1) * r)"
proof -
  define c where "c = (real n / r) / real (n - 1)"
  have "np_linspace 0 (real n / r) n ! Suc i - np_linspace 0 (real n / r) n ! i
          = real (Suc i) * c - real i * c"
    using assms unfolding c_def by (simp add: np_linspace_nth)
  also have "\<dots> = c"
    by (simp add: algebra_simps)
  also have "\<dots> = real n / (real (n - 1) * r)"
    unfolding c_def by (simp add: mult.commute)
  finally show ?thesis .
qed

lemma np_gradient_short:
  assumes "length f < 2" and "length x = length f"
  shows "np_gradient f x = Inl IndexError"
  using assms by (simp add: np_gradient_def)

lemma length_np_gradient:
  assumes "np_gradient f x = Inr d"
  shows "length d = length f \<and> 2 \<le> length f"
  using assms by (auto simp: np_gradient_def Let_def split: if_splits)

lemma speed_eq:
  assumes "downsample L acc_sig (PyInt 16) = Inr motion"
    and "num_val factor \<noteq> 0" and "fs \<noteq> 0"
  shows "speed L acc_sig factor fs =
           np_gradient motion
             (np_linspace 0 (real (length motion) / (fs / num_val factor)) (length motion))"
  using assms by (simp add: speed_def py_truediv_def Let_def)

lemma speed_result:
  assumes "speed L acc_sig factor fs = Inr d"
  shows "\<exists>motion. downsample L acc_sig (PyInt 16) = Inr motion \<and> length d = length motion
           \<and> 2 \<le> length motion"
  using assms
  by (auto simp: speed_def py_truediv_def Let_def split: sum.splits if_splits
      dest: length_np_gradient)

lemma downsample_step_acc: "downsample ref_dsp step_acc (PyInt 16) = Inr [0, 16]"
proof -
  have "stride 16 step_acc = [0, 16]"
    unfolding step_acc_def by (rule stride_blocks) simp
  then show ?thesis by (simp add: downsample_def ref_dsp_def ref_decimate_def)
qed

lemma np_gradient_two:
  "np_gradient [f0, f1] [x0, x1]
     = Inr [fdiv (Fin (f1 - f0)) (Fin (x1 - x0)), fdiv (Fin (f1 - f0)) (Fin (x1 - x0))]"
  by (simp add: np_gradient_def np_diff_def Let_def upt_rec)

lemma ref_decimate_checks_factor: "decimate_checks_factor ref_dsp"
proof -
  have "\<exists>e. ref_decimate x q ft = Inl e" if "\<not> valid_factor q" for x q ft
    using that by (cases q) (auto simp: ref_decimate_def)
  then show ?thesis by (simp add: decimate_checks_factor_def ref_dsp_def)
qed

lemma ref_sosfiltfilt_checks_length:
  "sosfiltfilt_checks_length ref_dsp (\<lambda>sos. ref_padlen sos + 1)"
  by (simp add: sosfiltfilt_checks_length_def ref_dsp_def ref_sosfiltfilt_def)

section \<open>The decimation factor of \<open>speed\<close> (C2)\<close>

text \<open>
  C2 fails on the code. \<open>speed\<close> takes \<open>factor\<close> and uses it for the rate on line 53,
  but line 52 calls \<open>downsample(acc_sig)\<close> without it, so the signal is always
  decimated by 16 (\<open>get_band_power\<close> does pass its factor on). With 64 samples and
  \<open>factor = 2\<close>, decimation by 2 would give 32 samples; \<open>speed\<close> returns 4, the length
  of the decimation by 16 (lemma \<open>speed_result\<close> has the general statement).
\<close>

theorem speed_decimates_by_16_at_factor_2:
  "downsample ref_dsp (replicate 64 1) (PyInt 2) = Inr (replicate 32 1)
   \<and> downsample ref_dsp (replicate 64 1) (PyInt 16) = Inr (replicate 4 1)
   \<and> (\<exists>d. speed ref_dsp (replicate 64 1) (PyInt 2) 20000 = Inr d \<and> length d = 4)"
proof -
  have d16: "downsample ref_dsp (replicate 64 1) (PyInt 16) = Inr (replicate 4 1)"
    by (simp add: downsample_def ref_dsp_def ref_decimate_def stride_replicate)
  have d2: "downsample ref_dsp (replicate 64 1) (PyInt 2) = Inr (replicate 32 1)"
    by (simp add: downsample_def ref_dsp_def ref_decimate_def stride_replicate)
  have "\<exists>d. np_gradient (replicate 4 1) (np_linspace 0 (real 4 / (20000 / 2)) 4) = Inr d
          \<and> length d = 4"
    by (simp add: np_gradient_def Let_def)
  then show ?thesis using d2 d16 speed_eq [OF d16, of "PyInt 2" 20000] by simp
qed

section \<open>The time axis of \<open>speed\<close> (C6)\<close>

text \<open>
  C6 fails on the code. The time axis is \<open>np.linspace(0, n_pts / dwn_fs, n_pts)\<close>, and
  \<open>linspace\<close> includes its end point: \<open>n_pts\<close> samples over \<open>n_pts / dwn_fs\<close> seconds
  are spaced \<open>n_pts / ((n_pts - 1) * dwn_fs)\<close> apart, not \<open>1 / dwn_fs\<close> (lemma
  \<open>np_linspace_step\<close>). With two decimated samples, 0 and 16, at the default rate
  20000 / 16 = 1250 Hz the axis is \<open>[0, 2/1250]\<close>, twice the sample period, and the
  derivative returned is 10000 where the slope over one sample period is 20000.
\<close>

theorem speed_time_axis_at_two_samples:
  "downsample ref_dsp step_acc (PyInt 16) = Inr [0, 16]
   \<and> speed ref_dsp step_acc (PyInt 16) 20000
        = np_gradient [0, 16] (np_linspace 0 (2 / (20000 / 16)) 2)
   \<and> np_linspace 0 (2 / (20000 / 16)) 2 = [0, 2 / 1250]
   \<and> (2 / 1250 :: real) \<noteq> 1 / (20000 / 16)
   \<and> speed ref_dsp step_acc (PyInt 16) 20000 = Inr [Fin 10000, Fin 10000]
   \<and> (16 - 0) / (1 / (20000 / 16)) = (20000 :: real)"
  by (simp add: downsample_step_acc speed_eq [OF downsample_step_acc] np_linspace_def
      np_gradient_two upt_rec)

section \<open>Validation of the decimation factor (C3)\<close>

text \<open>
  C3. \<open>downsample\<close> adds no check of its own and returns what \<open>decimate\<close> returns:
  when the library rejects every factor that is not an integer of at least 2,
  \<open>downsample\<close> fails on every such factor, and it succeeds only for an integer factor
  of at least 2.
\<close>

theorem downsample_rejects_invalid_factor:
  assumes "decimate_checks_factor L"
  shows "(\<not> valid_factor factor \<longrightarrow> (\<exists>e. downsample L raw_sig factor = Inl e))
         \<and> (\<forall>y. downsample L raw_sig factor = Inr y \<longrightarrow> valid_factor factor)"
proof -
  have a: "\<exists>e. downsample L raw_sig factor = Inl e" if "\<not> valid_factor factor"
    using assms that by (simp add: decimate_checks_factor_def downsample_def)
  then have "valid_factor factor" if "downsample L raw_sig factor = Inr y" for y
    using that by auto
  with a show ?thesis by blast
qed

text \<open>
  At the small implementation: the factors 2.5 and 1 are rejected, the factor 2 is
  accepted.
\<close>

theorem downsample_rejects_invalid_factor_witness:
  "decimate_checks_factor ref_dsp
   \<and> \<not> valid_factor (PyFloat (5 / 2))
   \<and> (\<exists>e. downsample ref_dsp [1, 2, 3, 4] (PyFloat (5 / 2)) = Inl e)
   \<and> \<not> valid_factor (PyInt 1)
   \<and> (\<exists>e. downsample ref_dsp [1, 2, 3, 4] (PyInt 1) = Inl e)
   \<and> downsample ref_dsp [1, 2, 3, 4] (PyInt 2) = Inr [1, 3]
   \<and> valid_factor (PyInt 2)"
proof -
  have d: "downsample ref_dsp [1, 2, 3, 4] (PyInt 2) = Inr [1, 3]"
    by (simp add: downsample_def ref_dsp_def ref_decimate_def)
  show ?thesis
    using downsample_rejects_invalid_factor [OF ref_decimate_checks_factor,
        of "PyFloat (5 / 2)" "[1, 2, 3, 4]"]
      downsample_rejects_invalid_factor [OF ref_decimate_checks_factor,
        of "PyInt 1" "[1, 2, 3, 4]"]
      downsample_rejects_invalid_factor [OF ref_decimate_checks_factor,
        of "PyInt 2" "[1, 2, 3, 4]"]
      d ref_decimate_checks_factor
    by simp
qed

section \<open>Zero-phase filtering of a short signal (C7)\<close>

text \<open>
  C7. \<open>bandpass\<close> and \<open>lowpass\<close> add no check of their own: once the filter is
  designed, they return what \<open>sosfiltfilt\<close> returns. When the library rejects every
  signal shorter than the minimum length of the filter and filters every other signal to
  one of the same length, so do \<open>bandpass\<close> and \<open>lowpass\<close>.
\<close>

theorem zero_phase_filter_min_length:
  assumes "sosfiltfilt_checks_length L min_len"
    and "make_sos_filter L order low high Bandpass fs = Inr sos"
    and "butter L order' [cutoff] Lowpass fs' = Inr sos'"
  shows "(length sig < min_len sos \<longrightarrow> (\<exists>e. bandpass L sig low high fs order = Inl e))
         \<and> (min_len sos \<le> length sig \<longrightarrow>
              (\<exists>y. bandpass L sig low high fs order = Inr y \<and> length y = length sig))
         \<and> (length sig < min_len sos' \<longrightarrow> (\<exists>e. lowpass L sig cutoff fs' order' = Inl e))
         \<and> (min_len sos' \<le> length sig \<longrightarrow>
              (\<exists>y. lowpass L sig cutoff fs' order' = Inr y \<and> length y = length sig))"
  using assms by (simp add: sosfiltfilt_checks_length_def bandpass_def lowpass_def)

text \<open>
  At the small implementation: the band-pass filter of order 4 has four sections and
  needs 28 samples, the low-pass filter of order 4 has two and needs 16.
\<close>

theorem zero_phase_filter_min_length_witness:
  "sosfiltfilt_checks_length ref_dsp (\<lambda>sos. ref_padlen sos + 1)
   \<and> make_sos_filter ref_dsp 4 4 10 Bandpass 1250 = Inr 4
   \<and> butter ref_dsp 4 [10] Lowpass 1250 = Inr 2
   \<and> ref_padlen 4 + 1 = 28
   \<and> (\<exists>e. bandpass ref_dsp (replicate 27 1) 4 10 1250 4 = Inl e)
   \<and> (\<exists>y. bandpass ref_dsp (replicate 28 1) 4 10 1250 4 = Inr y \<and> length y = 28)
   \<and> (\<exists>e. lowpass ref_dsp (replicate 15 1) 10 1250 4 = Inl e)
   \<and> (\<exists>y. lowpass ref_dsp (replicate 28 1) 10 1250 4 = Inr y \<and> length y = 28)"
proof -
  have b: "make_sos_filter ref_dsp 4 4 10 Bandpass 1250 = Inr 4"
    by (simp add: make_sos_filter_def ref_dsp_def ref_butter_def)
  have l: "butter ref_dsp 4 [10] Lowpass 1250 = Inr 2"
    by (simp add: ref_dsp_def ref_butter_def)
  show ?thesis
    using zero_phase_filter_min_length [OF ref_sosfiltfilt_checks_length b l,
        of "replicate 27 1"]
      zero_phase_filter_min_length [OF ref_sosfiltfilt_checks_length b l,
        of "replicate 28 1"]
      zero_phase_filter_min_length [OF ref_sosfiltfilt_checks_length b l,
        of "replicate 15 1"]
      b l ref_sosfiltfilt_checks_length
    by (simp add: ref_padlen_def)
qed

section \<open>Band power: when it returns, its length and sign (C5)\<close>

lemma ref_hilbert_returns: "hilbert_returns ref_dsp"
  by (simp add: hilbert_returns_def ref_dsp_def ref_hilbert_def)

lemma get_band_power_result:
  assumes "filters_keep_length L"
    and "get_band_power L raw_sig low high fs factor order = Inr pw"
  shows "(\<exists>dwn_sig. downsample L raw_sig factor = Inr dwn_sig \<and> length pw = length dwn_sig)
         \<and> (\<forall>v \<in> set pw. 0 \<le> v)"
proof -
  from assms(2) obtain dwn_sig dwn_fs f_sig h_transf where
    d: "downsample L raw_sig factor = Inr dwn_sig" and
    b: "bandpass L dwn_sig low high (of_int dwn_fs) order = Inr f_sig" and
    h: "hilbert L f_sig = Inr h_transf" and
    p: "pw = map (\<lambda>z. (cmod z)\<^sup>2) h_transf"
    by (auto simp: get_band_power_def split: sum.splits)
  from b obtain sos where "sosfiltfilt L sos dwn_sig = Inr f_sig"
    by (auto simp: bandpass_def split: sum.splits)
  with assms(1) have "length f_sig = length dwn_sig"
    by (auto simp: filters_keep_length_def)
  moreover from h assms(1) have "length h_transf = length f_sig"
    by (auto simp: filters_keep_length_def)
  ultimately have "length pw = length dwn_sig" using p by simp
  moreover have "\<forall>v \<in> set pw. 0 \<le> v" using p by auto
  ultimately show ?thesis using d by blast
qed

lemma get_band_power_short:
  assumes "sosfiltfilt_checks_length L min_len"
    and "downsample L raw_sig factor = Inr dwn_sig"
    and "py_int_floordiv fs (num_val factor) = Inr dwn_fs"
    and "make_sos_filter L order low high Bandpass (of_int dwn_fs) = Inr sos"
    and "length dwn_sig < min_len sos"
  shows "\<exists>e. get_band_power L raw_sig low high fs factor order = Inl e"
proof -
  from assms(1,5) obtain e where "sosfiltfilt L sos dwn_sig = Inl e"
    unfolding sosfiltfilt_checks_length_def by blast
  then have "bandpass L dwn_sig low high (of_int dwn_fs) order = Inl e"
    using assms(4) by (simp add: bandpass_def)
  then show ?thesis using assms(2,3) by (simp add: get_band_power_def)
qed

lemma get_band_power_long:
  assumes "sosfiltfilt_checks_length L min_len" and "hilbert_returns L"
    and "downsample L raw_sig factor = Inr dwn_sig"
    and "py_int_floordiv fs (num_val factor) = Inr dwn_fs"
    and "make_sos_filter L order low high Bandpass (of_int dwn_fs) = Inr sos"
    and "min_len sos \<le> length dwn_sig" and "dwn_sig \<noteq> []"
  shows "\<exists>pw. get_band_power L raw_sig low high fs factor order = Inr pw"
proof -
  from assms(1,6) obtain f_sig where
    f: "sosfiltfilt L sos dwn_sig = Inr f_sig" and l: "length f_sig = length dwn_sig"
    unfolding sosfiltfilt_checks_length_def by blast
  have b: "bandpass L dwn_sig low high (of_int dwn_fs) order = Inr f_sig"
    using assms(5) f by (simp add: bandpass_def)
  from l assms(7) have "f_sig \<noteq> []" by auto
  with assms(2) obtain h where h: "hilbert L f_sig = Inr h"
    unfolding hilbert_returns_def by blast
  show ?thesis using assms(3,4) b h by (simp add: get_band_power_def)
qed

text \<open>
  C5, as stated, fails: \<open>get_band_power\<close> does not return for every raw signal with a
  valid band. With the defaults, 432 zero samples decimate to 27, the band-pass filter
  of order 4 is designed, and the zero-phase filter (line 19), which needs more than 27
  samples, raises \<open>ValueError\<close>.
\<close>

theorem get_band_power_short_signal_counterexample:
  "downsample ref_dsp (replicate 432 0) (PyInt 16) = Inr (replicate 27 0)
   \<and> make_sos_filter ref_dsp 4 4 10 Bandpass 1250 = Inr 4
   \<and> get_band_power ref_dsp (replicate 432 0) 4 10 20000 (PyInt 16) 4 = Inl ValueError"
  by (simp add: get_band_power_def downsample_def bandpass_def make_sos_filter_def
      ref_dsp_def ref_decimate_def ref_butter_def ref_sosfiltfilt_def ref_padlen_def
      py_int_floordiv_def stride_replicate)

text \<open>
  C5, amended. Let decimation, the rate and the design of the band-pass filter succeed.
  If the decimated signal is shorter than the minimum length of the filter,
  \<open>get_band_power\<close> raises. If it is not empty and at least that long,
  \<open>get_band_power\<close> returns a signal of the length of the decimated signal whose
  elements are all non-negative. And whenever \<open>get_band_power\<close> returns, its result
  has that length and sign. The sign comes from the module's own
  \<open>np.abs(h_transf) ** 2\<close>; the rest needs that the zero-phase filter checks the length
  and keeps it, and that the Hilbert transform returns a signal of the length of its
  input.
\<close>

theorem get_band_power_returns_or_raises:
  assumes "filters_keep_length L"
    and "sosfiltfilt_checks_length L min_len"
    and "hilbert_returns L"
    and "downsample L raw_sig factor = Inr dwn_sig"
    and "py_int_floordiv fs (num_val factor) = Inr dwn_fs"
    and "make_sos_filter L order low high Bandpass (of_int dwn_fs) = Inr sos"
  shows "(length dwn_sig < min_len sos \<longrightarrow>
            (\<exists>e. get_band_power L raw_sig low high fs factor order = Inl e))
         \<and> (min_len sos \<le> length dwn_sig \<and> dwn_sig \<noteq> [] \<longrightarrow>
            (\<exists>pw. get_band_power L raw_sig low high fs factor order = Inr pw
               \<and> length pw = length dwn_sig \<and> (\<forall>v \<in> set pw. 0 \<le> v)))
         \<and> (\<forall>pw. get_band_power L raw_sig low high fs factor order = Inr pw \<longrightarrow>
               length pw = length dwn_sig \<and> (\<forall>v \<in> set pw. 0 \<le> v))"
proof -
  have r: "length pw = length dwn_sig \<and> (\<forall>v \<in> set pw. 0 \<le> v)"
    if "get_band_power L raw_sig low high fs factor order = Inr pw" for pw
    using get_band_power_result [OF assms(1) that] assms(4) by auto
  have s: "\<exists>e. get_band_power L raw_sig low high fs factor order = Inl e"
    if "length dwn_sig < min_len sos"
    by (rule get_band_power_short [OF assms(2,4,5,6) that])
  have l: "\<exists>pw. get_band_power L raw_sig low high fs factor order = Inr pw
             \<and> length pw = length dwn_sig \<and> (\<forall>v \<in> set pw. 0 \<le> v)"
    if "min_len sos \<le> length dwn_sig" and "dwn_sig \<noteq> []"
  proof -
    from get_band_power_long [OF assms(2,3,4,5,6) that]
    obtain pw where "get_band_power L raw_sig low high fs factor order = Inr pw" ..
    with r show ?thesis by blast
  qed
  show ?thesis using r s l by blast
qed

text \<open>
  At the small implementation, with the default rate, factor and order: 512 samples
  decimate to 32 and \<open>get_band_power\<close> returns 32 non-negative values; 432 samples
  decimate to 27, one fewer than the 28 the filter needs, and it raises.
\<close>

theorem get_band_power_returns_or_raises_witness:
  "filters_keep_length ref_dsp
   \<and> sosfiltfilt_checks_length ref_dsp (\<lambda>sos. ref_padlen sos + 1)
   \<and> hilbert_returns ref_dsp
   \<and> py_int_floordiv 20000 (num_val (PyInt 16)) = Inr 1250
   \<and> make_sos_filter ref_dsp 4 4 10 Bandpass (of_int 1250) = Inr 4
   \<and> ref_padlen 4 + 1 = 28
   \<and> downsample ref_dsp (replicate 512 3) (PyInt 16) = Inr (replicate 32 3)
   \<and> (\<exists>pw. get_band_power ref_dsp (replicate 512 3) 4 10 20000 (PyInt 16) 4 = Inr pw
         \<and> length pw = 32 \<and> list_all (\<lambda>v. 0 \<le> v) pw)
   \<and> downsample ref_dsp (replicate 432 3) (PyInt 16) = Inr (replicate 27 3)
   \<and> (\<exists>e. get_band_power ref_dsp (replicate 432 3) 4 10 20000 (PyInt 16) 4 = Inl e)"
proof -
  have r: "py_int_floordiv 20000 (num_val (PyInt 16)) = Inr 1250"
    by (simp add: py_int_floordiv_def)
  have b: "make_sos_filter ref_dsp 4 4 10 Bandpass (of_int 1250) = Inr 4"
    by (simp add: make_sos_filter_def ref_dsp_def ref_butter_def)
  have d1: "downsample ref_dsp (replicate 512 3) (PyInt 16) = Inr (replicate 32 3)"
    by (simp add: downsample_def ref_dsp_def ref_decimate_def stride_replicate)
  have d2: "downsample ref_dsp (replicate 432 3) (PyInt 16) = Inr (replicate 27 3)"
    by (simp add: downsample_def ref_dsp_def ref_decimate_def stride_replicate)
  have p: "ref_padlen 4 + 1 = 28" by (simp add: ref_padlen_def)
  show ?thesis
    using get_band_power_returns_or_raises [OF ref_filters_keep_length
        ref_sosfiltfilt_checks_length ref_hilbert_returns d1 r b]
      get_band_power_returns_or_raises [OF ref_filters_keep_length
        ref_sosfiltfilt_checks_length ref_hilbert_returns d2 r b]
      ref_filters_keep_length ref_sosfiltfilt_checks_length ref_hilbert_returns r b d1 d2 p
    by (auto simp: list_all_iff)
qed

section \<open>\<open>speed\<close> on fewer than two decimated samples (C8)\<close>

text \<open>
  When the signal that line 52 computes, the decimation by 16, has fewer than two
  samples, \<open>speed\<close> fails: with \<open>IndexError\<close>, raised by \<open>np.gradient\<close>, or already
  with \<open>ZeroDivisionError\<close> on line 53 or 55 when \<open>factor\<close> or \<open>fs\<close> is zero.
\<close>

lemma speed_fails_on_short_decimation:
  assumes "downsample L acc_sig (PyInt 16) = Inr motion" and "length motion < 2"
  shows "speed L acc_sig factor fs =
           Inl (if num_val factor = 0 \<or> fs = 0 then ZeroDivisionError else IndexError)"
  using assms by (simp add: speed_def py_truediv_def np_gradient_short Let_def)

text \<open>
  C8 fails on the code, by the slip of C2: the signal decimated by \<open>factor\<close> is not the
  one \<open>speed\<close> differentiates. With 32 samples and \<open>factor = 32\<close> the decimation by
  the factor has one sample, so \<open>speed\<close> should fail; line 52 decimates by 16, to two
  samples, and \<open>speed\<close> returns two values.
\<close>

theorem speed_short_by_factor_returns:
  "downsample ref_dsp (replicate 32 1) (PyInt 32) = Inr [1]
   \<and> downsample ref_dsp (replicate 32 1) (PyInt 16) = Inr [1, 1]
   \<and> speed ref_dsp (replicate 32 1) (PyInt 32) 20000 = Inr [Fin 0, Fin 0]"
proof -
  have d32: "downsample ref_dsp (replicate 32 1) (PyInt 32) = Inr [1]"
    by (simp add: downsample_def ref_dsp_def ref_decimate_def stride_replicate)
  have d16: "downsample ref_dsp (replicate 32 1) (PyInt 16) = Inr [1, 1]"
    by (simp add: downsample_def ref_dsp_def ref_decimate_def stride_replicate
        numeral_2_eq_2)
  show ?thesis
    using d32 d16
    by (simp add: speed_eq [OF d16] np_linspace_def np_gradient_two upt_rec)
qed

section \<open>Lemmas on the store\<close>

lemma unchanged_refl: "unchanged h h"
  by (simp add: unchanged_def)

lemma unchanged_length:
  assumes "unchanged h h'"
  shows "length h \<le> length h'"
proof -
  have "length (take (length h) h') = length h" using assms by (simp add: unchanged_def)
  then show ?thesis by simp
qed

lemma unchanged_trans:
  assumes "unchanged h h1" and "unchanged h1 h2"
  shows "unchanged h h2"
proof -
  have "take (length h) h2 = take (length h) (take (length h1) h2)"
    using unchanged_length [OF assms(1)] by (simp add: min_def)
  also have "\<dots> = take (length h) h1" using assms(2) by (simp add: unchanged_def)
  also have "\<dots> = h" using assms(1) by (simp add: unchanged_def)
  finally show ?thesis by (simp add: unchanged_def)
qed

lemma unchanged_nth:
  assumes "unchanged h h'" and "a < length h"
  shows "h' ! a = h ! a"
proof -
  have "take (length h) h' ! a = h' ! a" using assms(2) by simp
  then show ?thesis using assms(1) by (simp add: unchanged_def)
qed



lemma keepsD: "keeps m \<Longrightarrow> unchanged h (snd (m h))"
  by (simp add: keeps_def)

lemma allocates_keeps: "allocates m \<Longrightarrow> keeps m"
  by (simp add: allocates_def keeps_def)

lemma allocatesD:
  assumes "allocates m" and "m h = (Inr a, h')"
  shows "length h \<le> a \<and> a < length h'"
proof -
  have "fst (m h) = Inr a" and "snd (m h) = h'" using assms(2) by simp_all
  with assms(1) show ?thesis unfolding allocates_def by blast
qed

lemma keeps_pure: "keeps (pure_h r)"
  by (simp add: keeps_def pure_h_def unchanged_refl)

lemma keeps_bind:
  assumes "keeps m" and "\<And>v. keeps (f v)"
  shows "keeps (bind_h m f)"
  unfolding keeps_def
proof
  fix h
  obtain r h1 where m: "m h = (r, h1)" by (cases "m h")
  have u1: "unchanged h h1" using keepsD [OF assms(1), of h] m by simp
  show "unchanged h (snd (bind_h m f h))"
  proof (cases r)
    case (Inl e)
    then show ?thesis using m u1 by (simp add: bind_h_def)
  next
    case (Inr v)
    have "unchanged h1 (snd (f v h1))" by (rule keepsD [OF assms(2)])
    then have "unchanged h (snd (f v h1))" by (rule unchanged_trans [OF u1])
    then show ?thesis using m Inr by (simp add: bind_h_def)
  qed
qed


lemma allocates_bind:
  assumes "keeps m" and "\<And>v. allocates (f v)"
  shows "allocates (bind_h m f)"
  unfolding allocates_def
proof (intro allI conjI impI)
  fix h
  have "keeps (bind_h m f)"
  proof (rule keeps_bind [OF assms(1)])
    fix v show "keeps (f v)" by (rule allocates_keeps [OF assms(2)])
  qed
  then show "unchanged h (snd (bind_h m f h))" by (rule keepsD)
next
  fix h a
  assume a: "fst (bind_h m f h) = Inr a"
  obtain r h1 where m: "m h = (r, h1)" by (cases "m h")
  have u1: "unchanged h h1" using keepsD [OF assms(1), of h] m by simp
  from a m obtain v where v: "r = Inr v" by (cases r) (simp_all add: bind_h_def)
  then have b: "bind_h m f h = f v h1" using m by (simp add: bind_h_def)
  obtain h2 where f: "f v h1 = (Inr a, h2)" using a b by (cases "f v h1") simp
  have "length h1 \<le> a \<and> a < length h2" by (rule allocatesD [OF assms(2) f])
  then show "length h \<le> a" and "a < length (snd (bind_h m f h))"
    using unchanged_length [OF u1] b f by simp_all
qed

lemma allocates_call: "frame_safe L \<Longrightarrow> allocates (call L c args)"
  by (simp add: frame_safe_def allocates_def)


lemma allocates_downsample_h: "frame_safe L \<Longrightarrow> allocates (downsample_h L raw_sig factor)"
  by (simp add: downsample_h_def allocates_call)

lemma allocates_bandpass_h:
  assumes "frame_safe L"
  shows "allocates (bandpass_h L sig low high fs order)"
  unfolding bandpass_h_def
  by (rule allocates_bind [OF keeps_pure]) (rule allocates_call [OF assms])

lemma allocates_lowpass_h:
  assumes "frame_safe L"
  shows "allocates (lowpass_h L sig cutoff fs order)"
  unfolding lowpass_h_def
  by (rule allocates_bind [OF keeps_pure]) (rule allocates_call [OF assms])

lemma allocates_get_band_power_h:
  assumes "frame_safe L"
  shows "allocates (get_band_power_h L raw_sig low high fs factor order)"
  unfolding get_band_power_h_def
proof (rule allocates_bind)
  show "keeps (downsample_h L raw_sig factor)"
    by (rule allocates_keeps [OF allocates_downsample_h [OF assms]])
next
  fix dwn_sig
  show "allocates (bind_h (pure_h (py_int_floordiv fs (num_val factor))) (\<lambda>dwn_fs.
          bind_h (bandpass_h L dwn_sig low high (of_int dwn_fs) order) (\<lambda>f_sig.
          bind_h (call L Hilbert [f_sig]) (\<lambda>h_transf.
          bind_h (call L Abs [h_transf]) (\<lambda>magnitude.
          call L Square [magnitude])))))"
  proof (rule allocates_bind [OF keeps_pure])
    fix dwn_fs
    show "allocates (bind_h (bandpass_h L dwn_sig low high (of_int dwn_fs) order) (\<lambda>f_sig.
            bind_h (call L Hilbert [f_sig]) (\<lambda>h_transf.
            bind_h (call L Abs [h_transf]) (\<lambda>magnitude.
            call L Square [magnitude]))))"
    proof (rule allocates_bind)
      show "keeps (bandpass_h L dwn_sig low high (of_int dwn_fs) order)"
        by (rule allocates_keeps [OF allocates_bandpass_h [OF assms]])
    next
      fix f_sig
      show "allocates (bind_h (call L Hilbert [f_sig]) (\<lambda>h_transf.
              bind_h (call L Abs [h_transf]) (\<lambda>magnitude.
              call L Square [magnitude])))"
      proof (rule allocates_bind)
        show "keeps (call L Hilbert [f_sig])"
          by (rule allocates_keeps [OF allocates_call [OF assms]])
      next
        fix h_transf
        show "allocates (bind_h (call L Abs [h_transf]) (\<lambda>magnitude.
                call L Square [magnitude]))"
        proof (rule allocates_bind)
          show "keeps (call L Abs [h_transf])"
            by (rule allocates_keeps [OF allocates_call [OF assms]])
        next
          fix magnitude
          show "allocates (call L Square [magnitude])" by (rule allocates_call [OF assms])
        qed
      qed
    qed
  qed
qed


lemma allocates_delta_theta_h:
  assumes "frame_safe L"
  shows "allocates (delta_theta_h L lfp_sig low_delta high_delta low_theta high_theta fs)"
  unfolding delta_theta_h_def
  by (rule allocates_bind allocates_keeps allocates_call [OF assms]
      allocates_get_band_power_h [OF assms])+

lemma allocates_read:
  assumes "\<And>n. allocates (g n)"
  shows "allocates (\<lambda>h. g (k h) h)"
  using assms by (simp add: allocates_def)

lemma allocates_speed_h:
  assumes "frame_safe L"
  shows "allocates (speed_h L acc_sig factor fs)"
  unfolding speed_h_def Let_def
proof (rule allocates_bind)
  show "keeps (downsample_h L acc_sig (PyInt 16))"
    by (rule allocates_keeps [OF allocates_downsample_h [OF assms]])
next
  fix motion
  show "allocates (bind_h (pure_h (py_truediv fs (num_val factor))) (\<lambda>dwn_fs h.
          bind_h (pure_h (py_truediv (real (arr_len (h ! motion))) dwn_fs)) (\<lambda>end_time.
          bind_h (call L (Linspace 0 end_time (arr_len (h ! motion))) []) (\<lambda>t.
          call L Gradient [motion, t])) h))"
  proof (rule allocates_bind [OF keeps_pure])
    fix dwn_fs
    have "allocates (bind_h (pure_h (py_truediv (real n) dwn_fs)) (\<lambda>end_time.
            bind_h (call L (Linspace 0 end_time n) []) (\<lambda>t.
            call L Gradient [motion, t])))" for n
      by (rule allocates_bind keeps_pure allocates_keeps allocates_call [OF assms])+
    then show "allocates (\<lambda>h.
            bind_h (pure_h (py_truediv (real (arr_len (h ! motion))) dwn_fs)) (\<lambda>end_time.
            bind_h (call L (Linspace 0 end_time (arr_len (h ! motion))) []) (\<lambda>t.
            call L Gradient [motion, t])) h)"
      by (rule allocates_read [where k = "\<lambda>h. arr_len (h ! motion)"])
  qed
qed

lemma keeps_is_sleeping_h:
  assumes "frame_safe L"
  shows "keeps (is_sleeping_h L lfp_sig acc_sig low_delta high_delta low_theta high_theta fs)"
  unfolding is_sleeping_h_def
  by (rule keeps_bind keeps_pure allocates_keeps [OF allocates_delta_theta_h [OF assms]]
      allocates_keeps [OF allocates_speed_h [OF assms]])+

lemma alloc_frame:
  "unchanged h (snd (alloc r h))
   \<and> (\<forall>a. fst (alloc r h) = Inr a \<longrightarrow> length h \<le> a \<and> a < length (snd (alloc r h)))"
  by (cases r) (simp_all add: alloc_def unchanged_def)

lemma frame_safe_lift_dsp: "frame_safe (lift_dsp L)"
  unfolding frame_safe_def lift_dsp_def
  using alloc_frame by (simp add: unchanged_refl)


lemma bind_h_Inr:
  assumes "bind_h m f h = (Inr b, h')"
  shows "\<exists>v h1. m h = (Inr v, h1) \<and> f v h1 = (Inr b, h')"
proof -
  obtain r h1 where m: "m h = (r, h1)" by (cases "m h")
  with assms obtain v where "r = Inr v" by (cases r) (simp_all add: bind_h_def)
  with m assms show ?thesis by (simp add: bind_h_def)
qed

lemma is_sleeping_h_fresh:
  assumes "frame_safe L"
    and "is_sleeping_h L lfp_sig acc_sig low_delta high_delta low_theta high_theta fs h
           = (Inr (ratio, motion), h')"
  shows "length h \<le> ratio \<and> ratio < motion \<and> motion < length h'"
proof -
  from assms(2) obtain r h1 where
    d: "delta_theta_h L lfp_sig low_delta high_delta low_theta high_theta fs h = (Inr r, h1)" and
    rest: "bind_h (speed_h L acc_sig (PyInt 16) fs) (\<lambda>motion. pure_h (Inr (r, motion))) h1
             = (Inr (ratio, motion), h')"
    unfolding is_sleeping_h_def by (blast dest: bind_h_Inr)
  from rest obtain m h2 where
    s: "speed_h L acc_sig (PyInt 16) fs h1 = (Inr m, h2)" and
    p: "pure_h (Inr (r, m)) h2 = (Inr (ratio, motion), h')"
    by (blast dest: bind_h_Inr)
  from p have eq: "r = ratio" "m = motion" "h2 = h'" by (simp_all add: pure_h_def)
  have "length h \<le> r \<and> r < length h1"
    by (rule allocatesD [OF allocates_delta_theta_h [OF assms(1)] d])
  moreover have "length h1 \<le> m \<and> m < length h2"
    by (rule allocatesD [OF allocates_speed_h [OF assms(1)] s])
  ultimately show ?thesis using eq by simp
qed

text \<open>
  The second model computes what the first does: run over a library given by its
  values, each function returns the address of an array equal to the result of its
  counterpart, or raises the same exception.
\<close>

lemma call_lift:
  assumes "list_all (\<lambda>a. a < length h) args"
  shows "call (lift_dsp L) c args h = alloc (run_call L c (map (nth h) args)) h"
  using assms by (simp add: lift_dsp_def)

lemma alloc_Inl [simp]: "alloc (Inl e) h = (Inl e, h)"
  by (simp add: alloc_def)

lemma alloc_Inr [simp]: "alloc (Inr v) h = (Inr (length h), h @ [v])"
  by (simp add: alloc_def)

lemma downsample_h_lift:
  assumes "a < length h" and "h ! a = RealArr x"
  shows "downsample_h (lift_dsp L) a q h = alloc (map_sum id RealArr (downsample L x q)) h"
  using assms by (simp add: downsample_h_def call_lift run_call_def downsample_def)

lemma bandpass_h_lift:
  assumes "a < length h" and "h ! a = RealArr x"
  shows "bandpass_h (lift_dsp L) a low high fs order h
           = alloc (map_sum id RealArr (bandpass L x low high fs order)) h"
proof (cases "butter L order [low, high] Bandpass fs")
  case (Inl e)
  then show ?thesis
    by (simp add: bandpass_h_def bandpass_def make_sos_filter_h_def make_sos_filter_def
        bind_h_def pure_h_def lift_dsp_def)
next
  case (Inr sos)
  have "call (lift_dsp L) (SosFiltFilt sos) [a] h
          = alloc (map_sum id RealArr (sosfiltfilt L sos x)) h"
    using assms by (simp add: call_lift run_call_def)
  then show ?thesis using Inr
    by (simp add: bandpass_h_def bandpass_def make_sos_filter_h_def make_sos_filter_def
        bind_h_def pure_h_def lift_dsp_def)
qed

lemma get_band_power_h_lift:
  assumes "a < length h" and "h ! a = RealArr x"
  shows "computes (get_band_power_h (lift_dsp L) a low high fs q order) h
           (map_sum id RealArr (get_band_power L x low high fs q order))"
proof (cases "downsample L x q")
  case (Inl e)
  then have "downsample_h (lift_dsp L) a q h = (Inl e, h)"
    using downsample_h_lift [OF assms, of L q] by simp
  then show ?thesis using Inl
    by (simp add: computes_def get_band_power_h_def bind_h_def get_band_power_def)
next
  case d: (Inr dwn_sig)
  define h1 where "h1 = h @ [RealArr dwn_sig]"
  have m1: "downsample_h (lift_dsp L) a q h = (Inr (length h), h1)"
    using downsample_h_lift [OF assms, of L q] d by (simp add: h1_def)
  show ?thesis
  proof (cases "py_int_floordiv fs (num_val q)")
    case (Inl e)
    then show ?thesis using d
      by (simp add: computes_def get_band_power_h_def bind_h_def pure_h_def m1
          get_band_power_def)
  next
    case r: (Inr dwn_fs)
    have a1: "length h < length h1" "h1 ! length h = RealArr dwn_sig"
      by (simp_all add: h1_def)
    have b: "bandpass_h (lift_dsp L) (length h) low high (of_int dwn_fs) order h1
               = alloc (map_sum id RealArr (bandpass L dwn_sig low high (of_int dwn_fs) order)) h1"
      by (rule bandpass_h_lift [OF a1])
    show ?thesis
    proof (cases "bandpass L dwn_sig low high (of_int dwn_fs) order")
      case (Inl e)
      then show ?thesis using d r
        by (simp add: computes_def get_band_power_h_def bind_h_def pure_h_def m1 b
            get_band_power_def)
    next
      case f: (Inr f_sig)
      define h2 where "h2 = h1 @ [RealArr f_sig]"
      have m2: "bandpass_h (lift_dsp L) (length h) low high (of_int dwn_fs) order h1
                  = (Inr (length h1), h2)"
        using b f by (simp add: h2_def)
      have c3: "call (lift_dsp L) Hilbert [length h1] h2
                  = alloc (map_sum id ComplexArr (hilbert L f_sig)) h2"
        by (simp add: call_lift run_call_def h2_def)
      show ?thesis
      proof (cases "hilbert L f_sig")
        case (Inl e)
        then show ?thesis using d r f
          by (simp add: computes_def get_band_power_h_def bind_h_def pure_h_def m1 m2 c3
              get_band_power_def)
      next
        case hh: (Inr h_transf)
        define h3 where "h3 = h2 @ [ComplexArr h_transf]"
        define h4 where "h4 = h3 @ [RealArr (map cmod h_transf)]"
        have m3: "call (lift_dsp L) Hilbert [length h1] h2 = (Inr (length h2), h3)"
          using c3 hh by (simp add: h3_def)
        have m4: "call (lift_dsp L) Abs [length h2] h3 = (Inr (length h3), h4)"
          by (simp add: call_lift run_call_def h3_def h4_def)
        have m5: "call (lift_dsp L) Square [length h3] h4
                    = (Inr (length h4), h4 @ [RealArr (map (\<lambda>z. (cmod z)\<^sup>2) h_transf)])"
          by (simp add: call_lift run_call_def h4_def o_def)
        have g: "get_band_power L x low high fs q order
                   = Inr (map (\<lambda>z. (cmod z)\<^sup>2) h_transf)"
          using d r f hh by (simp add: get_band_power_def)
        have "get_band_power_h (lift_dsp L) a low high fs q order h
                = (Inr (length h4), h4 @ [RealArr (map (\<lambda>z. (cmod z)\<^sup>2) h_transf)])"
          by (simp add: get_band_power_h_def bind_h_def pure_h_def m1 r m2 m3 m4 m5)
        then show ?thesis unfolding g by (simp add: computes_def)
      qed
    qed
  qed
qed


lemma computes_InrD:
  assumes "computes m h (Inr v)"
  shows "\<exists>b h'. m h = (Inr b, h') \<and> b < length h' \<and> h' ! b = v"
proof -
  from assms obtain b where "fst (m h) = Inr b" "b < length (snd (m h))" "snd (m h) ! b = v"
    by (auto simp: computes_def)
  then show ?thesis by (cases "m h") auto
qed

lemma computes_InlD:
  assumes "computes m h (Inl e)"
  shows "\<exists>h'. m h = (Inl e, h')"
  using assms by (cases "m h") (simp add: computes_def)

lemma delta_theta_h_lift:
  assumes "a < length h" and "h ! a = RealArr x"
  shows "computes (delta_theta_h (lift_dsp L) a low_delta high_delta low_theta high_theta fs) h
           (map_sum id FloatArr (delta_theta L x low_delta high_delta low_theta high_theta fs))"
proof (cases "get_band_power L x low_theta high_theta fs (PyInt 16) 4")
  case (Inl e)
  with get_band_power_h_lift [OF assms, of L low_theta high_theta fs "PyInt 16" 4]
  obtain h1 where
    "get_band_power_h (lift_dsp L) a low_theta high_theta fs (PyInt 16) 4 h = (Inl e, h1)"
    by (auto dest: computes_InlD)
  then show ?thesis using Inl
    by (simp add: computes_def delta_theta_h_def bind_h_def delta_theta_def)
next
  case t: (Inr theta_power)
  with get_band_power_h_lift [OF assms, of L low_theta high_theta fs "PyInt 16" 4]
  obtain b1 h1 where
    m1: "get_band_power_h (lift_dsp L) a low_theta high_theta fs (PyInt 16) 4 h = (Inr b1, h1)"
    and b1: "b1 < length h1" "h1 ! b1 = RealArr theta_power"
    by (auto dest: computes_InrD)
  have u1: "unchanged h h1"
    using keepsD [OF allocates_keeps [OF allocates_get_band_power_h [OF frame_safe_lift_dsp]],
        of h L a low_theta high_theta fs "PyInt 16" 4] m1
    by simp
  have a1: "a < length h1" "h1 ! a = RealArr x"
    using unchanged_length [OF u1] unchanged_nth [OF u1 assms(1)] assms by simp_all
  show ?thesis
  proof (cases "get_band_power L x low_delta high_delta fs (PyInt 16) 4")
    case (Inl e)
    with get_band_power_h_lift [OF a1, of L low_delta high_delta fs "PyInt 16" 4]
    obtain h2 where
      "get_band_power_h (lift_dsp L) a low_delta high_delta fs (PyInt 16) 4 h1 = (Inl e, h2)"
      by (auto dest: computes_InlD)
    then show ?thesis using Inl t
      by (simp add: computes_def delta_theta_h_def bind_h_def m1 delta_theta_def)
  next
    case d: (Inr delta_power)
    with get_band_power_h_lift [OF a1, of L low_delta high_delta fs "PyInt 16" 4]
    obtain b2 h2 where
      m2: "get_band_power_h (lift_dsp L) a low_delta high_delta fs (PyInt 16) 4 h1 = (Inr b2, h2)"
      and b2: "b2 < length h2" "h2 ! b2 = RealArr delta_power"
      by (auto dest: computes_InrD)
    have u2: "unchanged h1 h2"
      using keepsD [OF allocates_keeps [OF allocates_get_band_power_h [OF frame_safe_lift_dsp]],
          of h1 L a low_delta high_delta fs "PyInt 16" 4] m2
      by simp
    have b1': "b1 < length h2" "h2 ! b1 = RealArr theta_power"
      using unchanged_length [OF u2] unchanged_nth [OF u2 b1(1)] b1 by simp_all
    define h3 where "h3 = h2 @ [FloatArr (zscore theta_power)]"
    define h4 where "h4 = h3 @ [FloatArr (zscore delta_power)]"
    have m3: "call (lift_dsp L) ZScore [b1] h2 = (Inr (length h2), h3)"
      using b1' by (simp add: call_lift run_call_def h3_def)
    have m4: "call (lift_dsp L) ZScore [b2] h3 = (Inr (length h3), h4)"
      using b2 by (simp add: call_lift run_call_def h3_def h4_def nth_append)
    have m5: "call (lift_dsp L) Divide [length h2, length h3] h4
                = alloc (map_sum id FloatArr
                    (np_divide (zscore theta_power) (zscore delta_power))) h4"
      by (simp add: call_lift run_call_def h3_def h4_def nth_append)
    have "delta_theta_h (lift_dsp L) a low_delta high_delta low_theta high_theta fs h
            = alloc (map_sum id FloatArr
                (np_divide (zscore theta_power) (zscore delta_power))) h4"
      by (simp add: delta_theta_h_def bind_h_def m1 m2 m3 m4 m5)
    moreover have "delta_theta L x low_delta high_delta low_theta high_theta fs
                     = np_divide (zscore theta_power) (zscore delta_power)"
      using t d by (simp add: delta_theta_def)
    ultimately show ?thesis by (simp add: computes_def alloc_def split: sum.splits)
  qed
qed


lemma speed_h_lift:
  assumes "a < length h" and "h ! a = RealArr y"
  shows "computes (speed_h (lift_dsp L) a factor fs) h
           (map_sum id FloatArr (speed L y factor fs))"
proof (cases "downsample L y (PyInt 16)")
  case (Inl e)
  then have "downsample_h (lift_dsp L) a (PyInt 16) h = (Inl e, h)"
    using downsample_h_lift [OF assms, of L "PyInt 16"] by simp
  then show ?thesis using Inl
    by (simp add: computes_def speed_h_def bind_h_def speed_def)
next
  case d: (Inr motion)
  define h1 where "h1 = h @ [RealArr motion]"
  have m1: "downsample_h (lift_dsp L) a (PyInt 16) h = (Inr (length h), h1)"
    using downsample_h_lift [OF assms, of L "PyInt 16"] d by (simp add: h1_def)
  have n: "arr_len (h1 ! length h) = length motion" by (simp add: h1_def)
  show ?thesis
  proof (cases "py_truediv fs (num_val factor)")
    case (Inl e)
    then show ?thesis using d
      by (simp add: computes_def speed_h_def bind_h_def pure_h_def m1 speed_def)
  next
    case r: (Inr dwn_fs)
    show ?thesis
    proof (cases "py_truediv (real (length motion)) dwn_fs")
      case (Inl e)
      then show ?thesis using d r
        by (simp add: computes_def speed_h_def bind_h_def pure_h_def m1 n speed_def Let_def)
    next
      case e: (Inr end_time)
      define t where "t = np_linspace 0 end_time (length motion)"
      define h2 where "h2 = h1 @ [RealArr t]"
      have m2: "call (lift_dsp L) (Linspace 0 end_time (length motion)) [] h1
                  = (Inr (length h1), h2)"
        by (simp add: call_lift run_call_def h2_def t_def)
      have m3: "call (lift_dsp L) Gradient [length h, length h1] h2
                  = alloc (map_sum id FloatArr (np_gradient motion t)) h2"
        by (simp add: call_lift run_call_def h2_def h1_def nth_append)
      have "speed_h (lift_dsp L) a factor fs h
              = alloc (map_sum id FloatArr (np_gradient motion t)) h2"
        by (simp add: speed_h_def bind_h_def pure_h_def m1 r n e m2 m3 Let_def)
      moreover have "speed L y factor fs = np_gradient motion t"
        using d r e by (simp add: speed_def Let_def t_def)
      ultimately show ?thesis by (simp add: computes_def alloc_def split: sum.splits)
    qed
  qed
qed

lemma is_sleeping_h_lift:
  assumes "a < length h" and "h ! a = RealArr x" and "b < length h" and "h ! b = RealArr y"
  shows "case is_sleeping L x y low_delta high_delta low_theta high_theta fs of
           Inl e \<Rightarrow>
             fst (is_sleeping_h (lift_dsp L) a b low_delta high_delta low_theta high_theta fs h)
               = Inl e
         | Inr (ratio, motion) \<Rightarrow>
             (\<exists>p q h'.
                is_sleeping_h (lift_dsp L) a b low_delta high_delta low_theta high_theta fs h
                  = (Inr (p, q), h')
                \<and> p < length h' \<and> h' ! p = FloatArr ratio
                \<and> q < length h' \<and> h' ! q = FloatArr motion)"
proof (cases "delta_theta L x low_delta high_delta low_theta high_theta fs")
  case (Inl e)
  with delta_theta_h_lift [OF assms(1,2), of L low_delta high_delta low_theta high_theta fs]
  obtain h1 where
    "delta_theta_h (lift_dsp L) a low_delta high_delta low_theta high_theta fs h = (Inl e, h1)"
    by (auto dest: computes_InlD)
  then show ?thesis using Inl
    by (simp add: is_sleeping_h_def bind_h_def is_sleeping_def)
next
  case r: (Inr ratio)
  with delta_theta_h_lift [OF assms(1,2), of L low_delta high_delta low_theta high_theta fs]
  obtain p h1 where
    m1: "delta_theta_h (lift_dsp L) a low_delta high_delta low_theta high_theta fs h
           = (Inr p, h1)"
    and p: "p < length h1" "h1 ! p = FloatArr ratio"
    by (auto dest: computes_InrD)
  have u1: "unchanged h h1"
    using keepsD [OF allocates_keeps [OF allocates_delta_theta_h [OF frame_safe_lift_dsp]],
        of h L a low_delta high_delta low_theta high_theta fs] m1
    by simp
  have b1: "b < length h1" "h1 ! b = RealArr y"
    using unchanged_length [OF u1] unchanged_nth [OF u1 assms(3)] assms by simp_all
  show ?thesis
  proof (cases "speed L y (PyInt 16) fs")
    case (Inl e)
    with speed_h_lift [OF b1, of L "PyInt 16" fs]
    obtain h2 where "speed_h (lift_dsp L) b (PyInt 16) fs h1 = (Inl e, h2)"
      by (auto dest: computes_InlD)
    then show ?thesis using Inl r
      by (simp add: is_sleeping_h_def bind_h_def m1 is_sleeping_def)
  next
    case s: (Inr motion)
    with speed_h_lift [OF b1, of L "PyInt 16" fs]
    obtain q h2 where
      m2: "speed_h (lift_dsp L) b (PyInt 16) fs h1 = (Inr q, h2)"
      and q: "q < length h2" "h2 ! q = FloatArr motion"
      by (auto dest: computes_InrD)
    have u2: "unchanged h1 h2"
      using keepsD [OF allocates_keeps [OF allocates_speed_h [OF frame_safe_lift_dsp]],
          of h1 L b "PyInt 16" fs] m2
      by simp
    have p': "p < length h2" "h2 ! p = FloatArr ratio"
      using unchanged_length [OF u2] unchanged_nth [OF u2 p(1)] p by simp_all
    have "is_sleeping_h (lift_dsp L) a b low_delta high_delta low_theta high_theta fs h
            = (Inr (p, q), h2)"
      by (simp add: is_sleeping_h_def bind_h_def pure_h_def m1 m2)
    then show ?thesis using r s p' q by (simp add: is_sleeping_def)
  qed
qed

lemma speed_step_acc:
  "speed ref_dsp step_acc (PyInt 16) 20000 = Inr [Fin 10000, Fin 10000]"
  by (simp add: speed_eq [OF downsample_step_acc] np_linspace_def np_gradient_two upt_rec)

lemma is_sleeping_zeros_step:
  "is_sleeping ref_dsp (replicate 512 0) step_acc (1 / 10) 3 4 10 20000
     = Inr (replicate 32 NaN, [Fin 10000, Fin 10000])"
  by (simp add: is_sleeping_def delta_theta_zeros speed_step_acc)

section \<open>Input arrays are left unchanged (C9)\<close>

text \<open>
  C9. When no library call writes into an existing array, no stage of the pipeline
  does: after \<open>downsample\<close>, \<open>bandpass\<close>, \<open>lowpass\<close>, \<open>get_band_power\<close>,
  \<open>delta_theta\<close>, \<open>speed\<close> or \<open>is_sleeping\<close>, whether it returns or raises, every array
  that was in the store is there with the same elements, the LFP and accelerometer
  arrays among them, and the two arrays \<open>is_sleeping\<close> returns are new ones.
\<close>

theorem pipeline_leaves_arrays_unchanged:
  assumes "frame_safe L"
  shows "unchanged h (snd (downsample_h L sig factor h))
         \<and> unchanged h (snd (bandpass_h L sig low high fs order h))
         \<and> unchanged h (snd (lowpass_h L sig cutoff fs order h))
         \<and> unchanged h (snd (get_band_power_h L sig low high fs factor order h))
         \<and> unchanged h (snd (delta_theta_h L lfp_sig low_delta high_delta low_theta high_theta fs h))
         \<and> unchanged h (snd (speed_h L acc_sig factor fs h))
         \<and> unchanged h
              (snd (is_sleeping_h L lfp_sig acc_sig low_delta high_delta low_theta high_theta fs h))
         \<and> (lfp_sig < length h \<longrightarrow>
              snd (is_sleeping_h L lfp_sig acc_sig low_delta high_delta low_theta high_theta fs h)
                ! lfp_sig = h ! lfp_sig)
         \<and> (acc_sig < length h \<longrightarrow>
              snd (is_sleeping_h L lfp_sig acc_sig low_delta high_delta low_theta high_theta fs h)
                ! acc_sig = h ! acc_sig)
         \<and> (\<forall>ratio motion.
              fst (is_sleeping_h L lfp_sig acc_sig low_delta high_delta low_theta high_theta fs h)
                = Inr (ratio, motion)
              \<longrightarrow> length h \<le> ratio \<and> length h \<le> motion)"
proof -
  let ?run = "is_sleeping_h L lfp_sig acc_sig low_delta high_delta low_theta high_theta fs h"
  have u: "unchanged h (snd ?run)"
    by (rule keepsD [OF keeps_is_sleeping_h [OF assms]])
  have n: "length h \<le> ratio \<and> length h \<le> motion" if "fst ?run = Inr (ratio, motion)"
    for ratio motion
  proof -
    from that have "?run = (Inr (ratio, motion), snd ?run)" by (cases ?run) simp
    from is_sleeping_h_fresh [OF assms this] show ?thesis by simp
  qed
  show ?thesis
    using keepsD [OF allocates_keeps [OF allocates_downsample_h [OF assms]], of h sig factor]
      keepsD [OF allocates_keeps [OF allocates_bandpass_h [OF assms]], of h sig low high fs order]
      keepsD [OF allocates_keeps [OF allocates_lowpass_h [OF assms]], of h sig cutoff fs order]
      keepsD [OF allocates_keeps [OF allocates_get_band_power_h [OF assms]],
        of h sig low high fs factor order]
      keepsD [OF allocates_keeps [OF allocates_delta_theta_h [OF assms]],
        of h lfp_sig low_delta high_delta low_theta high_theta fs]
      keepsD [OF allocates_keeps [OF allocates_speed_h [OF assms]], of h acc_sig factor fs]
      u unchanged_nth [OF u] n
    by blast
qed

text \<open>
  At the small implementation, from a store holding 512 zero samples as the LFP and
  \<open>step_acc\<close> as the accelerometer signal: \<open>is_sleeping\<close> returns two new arrays, the
  ratio (32 NaN values) and the motion, and both inputs are as they were.
\<close>

theorem pipeline_leaves_arrays_unchanged_witness:
  "frame_safe (lift_dsp ref_dsp)
   \<and> (\<exists>p q h'.
         is_sleeping_h (lift_dsp ref_dsp) 0 1 (1 / 10) 3 4 10 20000
           [RealArr (replicate 512 0), RealArr step_acc] = (Inr (p, q), h')
         \<and> h' ! p = FloatArr (replicate 32 NaN)
         \<and> h' ! q = FloatArr [Fin 10000, Fin 10000]
         \<and> 2 \<le> p \<and> 2 \<le> q
         \<and> unchanged [RealArr (replicate 512 0), RealArr step_acc] h'
         \<and> h' ! 0 = RealArr (replicate 512 0)
         \<and> h' ! 1 = RealArr step_acc)"
proof -
  let ?h = "[RealArr (replicate 512 0), RealArr step_acc]"
  let ?run = "is_sleeping_h (lift_dsp ref_dsp) 0 1 (1 / 10) 3 4 10 20000 ?h"
  have "case is_sleeping ref_dsp (replicate 512 0) step_acc (1 / 10) 3 4 10 20000 of
          Inl e \<Rightarrow> fst ?run = Inl e
        | Inr (ratio, motion) \<Rightarrow>
            (\<exists>p q h'. ?run = (Inr (p, q), h')
               \<and> p < length h' \<and> h' ! p = FloatArr ratio
               \<and> q < length h' \<and> h' ! q = FloatArr motion)"
    by (rule is_sleeping_h_lift) simp_all
  then obtain p q h' where
    run: "?run = (Inr (p, q), h')" and
    res: "h' ! p = FloatArr (replicate 32 NaN)" "h' ! q = FloatArr [Fin 10000, Fin 10000]"
    unfolding is_sleeping_zeros_step by auto
  have "unchanged ?h h' \<and> h' ! 0 = ?h ! 0 \<and> h' ! 1 = ?h ! 1 \<and> length ?h \<le> p \<and> length ?h \<le> q"
    using pipeline_leaves_arrays_unchanged [OF frame_safe_lift_dsp [of ref_dsp],
        where h = ?h and lfp_sig = 0 and acc_sig = 1 and low_delta = "1 / 10"
          and high_delta = 3 and low_theta = 4 and high_theta = 10 and fs = 20000
          and sig = 0 and factor = "PyInt 16" and low = 4 and high = 10 and order = 4
          and cutoff = 10]
      run
    by simp
  then show ?thesis using run res frame_safe_lift_dsp [of ref_dsp] by simp
qed

end
